theory Spec2Isabelle
  imports Complex_Main "HOL-Library.Word" "HOL-Library.Log_Nat"
begin

unbundle bit_operations_syntax

section \<open>Machine types and the CUDA runtime as the host code sees it\<close>

text \<open>
  The host functions of \<open>device.cu\<close> talk to the CUDA runtime. The runtime is a record
  holding what the queries of the source return (device count, free memory, pointer
  attributes) and a log of the runtime calls issued so far, in order. Every host function
  of the model takes the runtime and returns its C result together with the updated
  runtime. C \<open>int\<close> and \<open>uint32_t\<close> are both \<open>32 word\<close>; a comparison between the
  two converts the \<open>int\<close> to unsigned, that is, it compares the words.
\<close>

type_synonym u32 = "32 word"
type_synonym u64 = "64 word"
type_synonym c_int = "32 word"
type_synonym ptr = nat
type_synonym stream = nat

datatype cudaMemoryType =
  cudaMemoryTypeUnregistered | cudaMemoryTypeHost | cudaMemoryTypeDevice | cudaMemoryTypeManaged

record cudaPointerAttributes =
  attr_type :: cudaMemoryType
  attr_device :: c_int

datatype cudaMemcpyKind = cudaMemcpyHostToDevice | cudaMemcpyDeviceToHost

datatype sharedMemDegree = NOSM | PARTIALSM | FULLSM

datatype cuda_call =
    cudaGetDeviceCount
  | cudaSetDevice u32
  | cudaMemGetInfo
  | cudaPointerGetAttributes ptr
  | cudaMalloc u64
  | cudaFree
  | cudaMemcpy u64 cudaMemcpyKind
  | cudaMemcpyAsync ptr ptr u64 cudaMemcpyKind stream
  | cudaDeviceSynchronize
  | cudaStreamSynchronize stream
  | cudaFuncSetAttribute sharedMemDegree c_int
  | cudaFuncSetCacheConfig sharedMemDegree
  | launch_device_bootstrap_amortized sharedMemDegree u32 u32 u64 u64 stream
  | launch_batch_NSMFFT u32 c_int c_int c_int stream

record cuda_rt =
  num_gpus :: c_int
  free_mem :: "u32 \<Rightarrow> u64"
  pointer_attributes :: "ptr \<Rightarrow> cudaPointerAttributes"
  current_device :: u32
  calls :: "cuda_call list"

definition api :: "cuda_call \<Rightarrow> cuda_rt \<Rightarrow> cuda_rt" where
  "api c rt = rt\<lparr>calls := calls rt @ [c]\<rparr>"

definition set_device :: "u32 \<Rightarrow> cuda_rt \<Rightarrow> cuda_rt" where
  "set_device gpu_index rt = (api (cudaSetDevice gpu_index) rt)\<lparr>current_device := gpu_index\<rparr>"

section \<open>Device resource manager\<close>

definition cuda_get_number_of_gpus :: "cuda_rt \<Rightarrow> c_int \<times> cuda_rt" where
  "cuda_get_number_of_gpus rt = (num_gpus rt, api cudaGetDeviceCount rt)"

text \<open>\<open>cuda_check_valid_malloc\<close>: 0 valid, -1 not enough memory, -2 no such device.\<close>

definition cuda_check_valid_malloc :: "u64 \<Rightarrow> u32 \<Rightarrow> cuda_rt \<Rightarrow> int \<times> cuda_rt" where
  "cuda_check_valid_malloc sz gpu_index rt =
     (let (n, rt1) = cuda_get_number_of_gpus rt in
      if gpu_index \<ge> n then (-2, rt1)
      else
        let rt2 = set_device gpu_index rt1;
            rt3 = api cudaMemGetInfo rt2;
            free = free_mem rt3 (current_device rt3)
        in if sz > free then (-1, rt3) else (0, rt3))"

text \<open>
  \<open>cuda_memcpy_async_to_gpu\<close> and \<open>cuda_memcpy_async_to_cpu\<close>: 0 success, -1 invalid
  device pointer, -2 no such device, -3 zero copy size. The device-side pointer is
  \<open>dest\<close> in the first and \<open>src\<close> in the second. The pointer test of the source is
  \<open>attr.device != gpu_index && attr.type != cudaMemoryTypeDevice\<close>.
\<close>

definition cuda_memcpy_async_to_gpu ::
  "ptr \<Rightarrow> ptr \<Rightarrow> u64 \<Rightarrow> stream \<Rightarrow> u32 \<Rightarrow> cuda_rt \<Rightarrow> int \<times> cuda_rt" where
  "cuda_memcpy_async_to_gpu dest src sz v_stream gpu_index rt =
     (if sz = 0 then (-3, rt)
      else
        let (n, rt1) = cuda_get_number_of_gpus rt in
        if gpu_index \<ge> n then (-2, rt1)
        else
          let rt2 = api (cudaPointerGetAttributes dest) rt1;
              attr = pointer_attributes rt2 dest
          in if attr_device attr \<noteq> gpu_index \<and> attr_type attr \<noteq> cudaMemoryTypeDevice
             then (-1, rt2)
             else
               let rt3 = set_device gpu_index rt2
               in (0, api (cudaMemcpyAsync dest src sz cudaMemcpyHostToDevice v_stream) rt3))"

definition cuda_memcpy_async_to_cpu ::
  "ptr \<Rightarrow> ptr \<Rightarrow> u64 \<Rightarrow> stream \<Rightarrow> u32 \<Rightarrow> cuda_rt \<Rightarrow> int \<times> cuda_rt" where
  "cuda_memcpy_async_to_cpu dest src sz v_stream gpu_index rt =
     (if sz = 0 then (-3, rt)
      else
        let (n, rt1) = cuda_get_number_of_gpus rt in
        if gpu_index \<ge> n then (-2, rt1)
        else
          let rt2 = api (cudaPointerGetAttributes src) rt1;
              attr = pointer_attributes rt2 src
          in if attr_device attr \<noteq> gpu_index \<and> attr_type attr \<noteq> cudaMemoryTypeDevice
             then (-1, rt2)
             else
               let rt3 = set_device gpu_index rt2
               in (0, api (cudaMemcpyAsync dest src sz cudaMemcpyDeviceToHost v_stream) rt3))"

definition cuda_synchronize_device :: "u32 \<Rightarrow> cuda_rt \<Rightarrow> int \<times> cuda_rt" where
  "cuda_synchronize_device gpu_index rt =
     (let (n, rt1) = cuda_get_number_of_gpus rt in
      if gpu_index \<ge> n then (-2, rt1)
      else (0, api cudaDeviceSynchronize (set_device gpu_index rt1)))"

section \<open>Launch configurator and bootstrap entry point\<close>

text \<open>
  \<open>host_bootstrap_amortized\<close> is a template over the torus type and the degree
  parameters; \<open>sizeof_Torus\<close> (a \<open>size_t\<close>) and \<open>opt\<close> (\<open>params::opt\<close>) are
  therefore arguments of the model. The footprints are sums of \<open>size_t\<close> products
  (64 bit) stored into \<open>int\<close> variables (truncated to 32 bit). \<open>sizeof(int16_t)\<close> is 2
  and \<open>sizeof(double2)\<close> is 16.
\<close>

definition SM_FULL :: "u64 \<Rightarrow> u32 \<Rightarrow> c_int" where
  "SM_FULL sizeof_Torus polynomial_size =
     ucast (sizeof_Torus * ucast polynomial_size +
            sizeof_Torus * ucast polynomial_size +
            sizeof_Torus * ucast polynomial_size +
            sizeof_Torus * ucast polynomial_size +
            2 * ucast polynomial_size +
            2 * ucast polynomial_size +
            16 * ucast polynomial_size div 2 +
            16 * ucast polynomial_size div 2 +
            16 * ucast polynomial_size div 2 :: u64)"

definition SM_PART :: "u32 \<Rightarrow> c_int" where
  "SM_PART polynomial_size = ucast (16 * ucast polynomial_size div 2 :: u64)"

definition DM_PART :: "u64 \<Rightarrow> u32 \<Rightarrow> c_int" where
  "DM_PART sizeof_Torus polynomial_size =
     SM_FULL sizeof_Torus polynomial_size - SM_PART polynomial_size"

definition DM_FULL :: "u64 \<Rightarrow> u32 \<Rightarrow> c_int" where
  "DM_FULL sizeof_Torus polynomial_size = SM_FULL sizeof_Torus polynomial_size"

text \<open>
  The three branches of the launcher. An \<open>int\<close> passed where the callee takes a
  \<open>size_t\<close> is sign-extended (\<open>scast\<close>); the product of an \<open>int\<close> and a
  \<open>uint32_t\<close> is a 32-bit unsigned product, zero-extended (\<open>ucast\<close>). The launch
  entry of the log records the tier, the grid and block sizes, the dynamic on-chip
  size, the per-sample scratch size and the stream. After the launch the function
  synchronizes the stream and frees the scratch.
\<close>

definition host_bootstrap_amortized ::
  "u64 \<Rightarrow> u32 \<Rightarrow> stream \<Rightarrow> u32 \<Rightarrow> u32 \<Rightarrow> u32 \<Rightarrow> cuda_rt \<Rightarrow> cuda_rt" where
  "host_bootstrap_amortized sizeof_Torus opt v_stream polynomial_size
       input_lwe_ciphertext_count max_shared_memory rt =
     (let sm_full = SM_FULL sizeof_Torus polynomial_size;
          sm_part = SM_PART polynomial_size;
          dm_part = DM_PART sizeof_Torus polynomial_size;
          dm_full = DM_FULL sizeof_Torus polynomial_size;
          grid = input_lwe_ciphertext_count;
          thds = polynomial_size div opt;
          rt1 =
           (if max_shared_memory < sm_part then
              api (launch_device_bootstrap_amortized NOSM grid thds 0 (scast dm_full) v_stream)
               (api (cudaMalloc (ucast (dm_full * input_lwe_ciphertext_count))) rt)
            else if max_shared_memory < sm_full then
              api (launch_device_bootstrap_amortized PARTIALSM grid thds (scast sm_part)
                     (scast dm_part) v_stream)
               (api (cudaMalloc (ucast (dm_part * input_lwe_ciphertext_count)))
                 (api (cudaFuncSetCacheConfig PARTIALSM)
                   (api (cudaFuncSetAttribute PARTIALSM sm_part) rt)))
            else
              api (launch_device_bootstrap_amortized FULLSM grid thds (scast sm_full) 0 v_stream)
               (api (cudaMalloc 0)
                 (api (cudaFuncSetCacheConfig FULLSM)
                   (api (cudaFuncSetAttribute FULLSM sm_full) rt))))
      in api cudaFree (api (cudaStreamSynchronize v_stream) rt1))"

text \<open>
  The launches of the bootstrap kernel in a log: tier and per-sample scratch size in
  bytes.
\<close>

fun bootstrap_launches :: "cuda_call list \<Rightarrow> (sharedMemDegree \<times> nat) list" where
  "bootstrap_launches [] = []"
| "bootstrap_launches (launch_device_bootstrap_amortized smd g t sm dm st # cs) =
     (smd, unat dm) # bootstrap_launches cs"
| "bootstrap_launches (c # cs) = bootstrap_launches cs"

text \<open>
  The selection rule in the words of the specification, over the natural numbers:
  the full footprint, the frequency-domain footprint, the richest tier that fits and the
  per-sample scratch of each tier.
\<close>

definition spec_SM_FULL :: "nat \<Rightarrow> nat \<Rightarrow> nat" where
  "spec_SM_FULL sizeof_Torus N = 4 * sizeof_Torus * N + 2 * 2 * N + 3 * 16 * N div 2"

definition spec_SM_PART :: "nat \<Rightarrow> nat" where
  "spec_SM_PART N = 16 * N div 2"

definition spec_tier :: "nat \<Rightarrow> nat \<Rightarrow> nat \<Rightarrow> sharedMemDegree" where
  "spec_tier sizeof_Torus N capacity =
     (if capacity \<ge> spec_SM_FULL sizeof_Torus N then FULLSM
      else if spec_SM_PART N \<le> capacity then PARTIALSM
      else NOSM)"

fun spec_scratch :: "nat \<Rightarrow> nat \<Rightarrow> sharedMemDegree \<Rightarrow> nat" where
  "spec_scratch sizeof_Torus N NOSM = spec_SM_FULL sizeof_Torus N"
| "spec_scratch sizeof_Torus N PARTIALSM = spec_SM_FULL sizeof_Torus N - spec_SM_PART N"
| "spec_scratch sizeof_Torus N FULLSM = 0"

text \<open>Calls on which the host thread waits for enqueued device work to complete.\<close>

fun is_synchronize :: "cuda_call \<Rightarrow> bool" where
  "is_synchronize cudaDeviceSynchronize = True"
| "is_synchronize (cudaStreamSynchronize _) = True"
| "is_synchronize _ = False"

text \<open>
  Three runtimes for the examples: two devices, every pointer being device memory of
  device 1; one device, every pointer being page-locked host memory registered with
  device 0; and one device, every pointer being device memory of device 0.
\<close>

definition two_gpu_rt :: cuda_rt where
  "two_gpu_rt =
     \<lparr>num_gpus = 2, free_mem = (\<lambda>_. 1024),
      pointer_attributes = (\<lambda>_. \<lparr>attr_type = cudaMemoryTypeDevice, attr_device = 1\<rparr>),
      current_device = 0, calls = []\<rparr>"

definition pinned_host_rt :: cuda_rt where
  "pinned_host_rt =
     \<lparr>num_gpus = 1, free_mem = (\<lambda>_. 1024),
      pointer_attributes = (\<lambda>_. \<lparr>attr_type = cudaMemoryTypeHost, attr_device = 0\<rparr>),
      current_device = 0, calls = []\<rparr>"

definition one_gpu_rt :: cuda_rt where
  "one_gpu_rt =
     \<lparr>num_gpus = 1, free_mem = (\<lambda>_. 1024),
      pointer_attributes = (\<lambda>_. \<lparr>attr_type = cudaMemoryTypeDevice, attr_device = 0\<rparr>),
      current_device = 0, calls = []\<rparr>"

text \<open>The calls of a log that allocate device memory.\<close>

fun is_alloc :: "cuda_call \<Rightarrow> bool" where
  "is_alloc (cudaMalloc _) = True"
| "is_alloc _ = False"

section \<open>Layout of the bootstrapping key\<close>

text \<open>
  The index functions of the key. In the C expressions the \<open>int\<close> arguments meet the
  \<open>uint32_t\<close> ones, so every product, quotient and sum is a 32-bit unsigned operation,
  evaluated from left to right. The block functions return the address of an element of
  the key; the model returns the index of that element, the 32-bit unsigned subscript.
\<close>

definition get_start_ith_ggsw :: "c_int \<Rightarrow> u32 \<Rightarrow> c_int \<Rightarrow> u32 \<Rightarrow> c_int" where
  "get_start_ith_ggsw i polynomial_size glwe_dimension l_gadget =
     i * polynomial_size div 2 * (glwe_dimension + 1) * (glwe_dimension + 1) * l_gadget"

definition get_ith_mask_kth_block ::
  "c_int \<Rightarrow> c_int \<Rightarrow> c_int \<Rightarrow> u32 \<Rightarrow> c_int \<Rightarrow> u32 \<Rightarrow> nat" where
  "get_ith_mask_kth_block i k level polynomial_size glwe_dimension l_gadget =
     unat (get_start_ith_ggsw i polynomial_size glwe_dimension l_gadget +
           level * polynomial_size div 2 * (glwe_dimension + 1) * (glwe_dimension + 1) +
           k * polynomial_size div 2 * (glwe_dimension + 1))"

definition get_ith_body_kth_block ::
  "c_int \<Rightarrow> c_int \<Rightarrow> c_int \<Rightarrow> u32 \<Rightarrow> c_int \<Rightarrow> u32 \<Rightarrow> nat" where
  "get_ith_body_kth_block i k level polynomial_size glwe_dimension l_gadget =
     unat (get_start_ith_ggsw i polynomial_size glwe_dimension l_gadget +
           level * polynomial_size div 2 * (glwe_dimension + 1) * (glwe_dimension + 1) +
           k * polynomial_size div 2 * (glwe_dimension + 1) +
           polynomial_size div 2)"

text \<open>The slice of \<open>n\<close> complex values that starts at an index.\<close>

definition slice :: "nat \<Rightarrow> nat \<Rightarrow> nat set" where
  "slice start n = {start ..< start + n}"

text \<open>
  The four blocks of a level of a GGSW entry are addressed by the kind of block
  (mask or body) and \<open>k\<close>. \<open>key_polynomial\<close> numbers them in the order in which
  the blocks lie in the key: entry by entry, level by level, \<open>k\<close> by \<open>k\<close>, mask before
  body.
\<close>

datatype block_kind = Mask_block | Body_block

fun kth_block ::
  "block_kind \<Rightarrow> c_int \<Rightarrow> c_int \<Rightarrow> c_int \<Rightarrow> u32 \<Rightarrow> c_int \<Rightarrow> u32 \<Rightarrow> nat" where
  "kth_block Mask_block = get_ith_mask_kth_block"
| "kth_block Body_block = get_ith_body_kth_block"

fun key_polynomial :: "block_kind \<Rightarrow> nat \<Rightarrow> nat \<Rightarrow> nat \<Rightarrow> nat \<Rightarrow> nat" where
  "key_polynomial Mask_block i k level l = ((i * l + level) * 2 + k) * 2"
| "key_polynomial Body_block i k level l = ((i * l + level) * 2 + k) * 2 + 1"

section \<open>Twiddle table builder\<close>

text \<open>
  The inner loop of \<open>cuda_initialize_twiddles\<close>,
  \<open>for (; j & bit; bit >>= 1) j ^= bit;\<close>, returns the final \<open>j\<close> and \<open>bit\<close>. The
  C variables are \<open>int\<close>; they stay between 0 and \<open>polynomial_size / 2 < 2^31\<close>, so
  they are natural numbers here.
\<close>

function clear_ones :: "nat \<Rightarrow> nat \<Rightarrow> nat \<times> nat" where
  "clear_ones j b = (if j AND b \<noteq> 0 then clear_ones (j XOR b) (drop_bit 1 b) else (j, b))"
  by pat_completeness auto
termination
proof (relation "measure snd")
  show "wf (measure snd)" by simp
next
  fix j b :: nat
  assume "j AND b \<noteq> 0"
  then have "b \<noteq> 0" by (cases "b = 0") simp_all
  then show "((j XOR b, drop_bit 1 b), (j, b)) \<in> measure snd"
    by (simp add: drop_bit_eq_div)
qed

declare clear_ones.simps [simp del]

text \<open>
  One pass of the outer loop body for index \<open>i\<close>. The state is \<open>j\<close>, \<open>cnt\<close> and the two
  arrays of \<open>short\<close>; a store into a \<open>short\<close> keeps the low 16 bits.
\<close>

definition twiddle_step ::
  "nat \<Rightarrow> nat \<times> nat \<times> 16 word list \<times> 16 word list \<Rightarrow> nat \<Rightarrow>
   nat \<times> nat \<times> 16 word list \<times> 16 word list" where
  "twiddle_step sw_size st i =
     (case st of (j, cnt, sw1_h, sw2_h) \<Rightarrow>
        let (j1, b1) = clear_ones j (drop_bit 1 sw_size);
            j2 = j1 XOR b1
        in if i < j2 then (j2, cnt + 1, sw1_h[cnt := of_nat i], sw2_h[cnt := of_nat j2])
           else (j2, cnt, sw1_h, sw2_h))"

text \<open>
  \<open>cuda_initialize_twiddles\<close> returns the two host arrays it uploads to the constant
  tables \<open>SW1\<close> and \<open>SW2\<close>.
\<close>

definition cuda_initialize_twiddles :: "u32 \<Rightarrow> 16 word list \<times> 16 word list" where
  "cuda_initialize_twiddles polynomial_size =
     (let sw_size = unat (polynomial_size div 2);
          sw1_h = replicate sw_size 0;
          sw2_h = replicate sw_size 0;
          (j, cnt, sw1, sw2) = foldl (twiddle_step sw_size) (0, 0, sw1_h, sw2_h) [1..<sw_size]
      in (sw1, sw2))"

text \<open>
  Binary-digit reversal of order \<open>2 ^ k\<close>, in the words of the specification: digit
  \<open>b\<close> of \<open>i\<close> becomes digit \<open>k - 1 - b\<close>, written \<open>k - Suc b\<close>. The swap pairs are the \<open>(i, rev i)\<close> with
  \<open>1 \<le> i < 2 ^ k\<close> and \<open>i < rev i\<close>.
\<close>

definition bit_reverse :: "nat \<Rightarrow> nat \<Rightarrow> nat" where
  "bit_reverse k i = (\<Sum>b \<leftarrow> [0..<k]. if bit i b then 2 ^ (k - Suc b) else 0)"

definition swap_indexes :: "nat \<Rightarrow> nat list" where
  "swap_indexes k = filter (\<lambda>i. i < bit_reverse k i) [1..<2 ^ k]"

section \<open>Bootstrapping-key converter\<close>

text \<open>
  The packing loop is written over a record of the two floating-point operations it
  performs, the conversion of an integer to \<open>double\<close> and the division, with
  \<open>double\<close> as the type parameter \<open>'d\<close>; \<open>ieee_ops\<close> below is the arithmetic of the
  machine. A \<open>double2\<close> is the pair of its \<open>x\<close> and \<open>y\<close>.
\<close>

record 'd double_ops =
  to_double :: "int \<Rightarrow> 'd"
  fdiv :: "'d \<Rightarrow> 'd \<Rightarrow> 'd"

type_synonym 'd double2 = "'d \<times> 'd"

text \<open>
  The converter is host code: its \<open>double\<close> is IEEE 754 binary64 in the default
  rounding mode. A finite \<open>double\<close> is the rational number it denotes (the two zeros
  are one value); the infinities and NaN are values of their own.

  \<open>rne\<close> rounds a rational to the nearest integer, a tie to the even one.
  \<open>ilog2 x\<close> is the exponent of a positive \<open>x\<close>: \<open>2 ^ ilog2 x \<le> x < 2 ^ (ilog2 x + 1)\<close>.
  The last place of a binary64 value with that exponent weighs \<open>2 ^ (ilog2 x - 52)\<close>
  (53 significant bits), and no less than \<open>2 ^ -1074\<close> (the subnormal numbers).
  \<open>round_binary64\<close> rounds to the nearest multiple of that weight, ties to even;
  \<open>to_binary64\<close> then gives the infinity of the same sign when the rounded magnitude
  reaches \<open>2 ^ 1024\<close>.
\<close>

definition rne :: "rat \<Rightarrow> int" where
  "rne x = (let f = \<lfloor>x\<rfloor>; d = x - of_int f in
            if d < 1 / 2 then f else if 1 / 2 < d then f + 1
            else if even f then f else f + 1)"

definition ilog2 :: "rat \<Rightarrow> int" where
  "ilog2 x = (if 1 \<le> x then bitlen \<lfloor>x\<rfloor> - 1 else - bitlen (\<lceil>1 / x\<rceil> - 1))"

definition ulp_exponent :: "rat \<Rightarrow> int" where
  "ulp_exponent x = max (ilog2 x - 52) (- 1074)"

definition round_magnitude :: "rat \<Rightarrow> rat" where
  "round_magnitude x = of_int (rne (x / 2 powi ulp_exponent x)) * 2 powi ulp_exponent x"

definition round_binary64 :: "rat \<Rightarrow> rat" where
  "round_binary64 x =
     (if x = 0 then 0 else if 0 < x then round_magnitude x else - round_magnitude (- x))"

datatype double = Finite rat | PInf | NInf | NaN

definition to_binary64 :: "rat \<Rightarrow> double" where
  "to_binary64 x =
     (let r = round_binary64 x in
      if r = 0 then Finite 0
      else if 1024 \<le> ilog2 \<bar>r\<bar> then (if 0 < r then PInf else NInf)
      else Finite r)"

text \<open>
  The conversion of an integer (\<open>int32_t\<close>, \<open>int64_t\<close>, \<open>uint32_t\<close> or
  \<open>uint64_t\<close>) to \<open>double\<close>, and the division of two \<open>double\<close>s.
\<close>

definition int_to_double :: "int \<Rightarrow> double" where
  "int_to_double i = to_binary64 (of_int i)"

fun double_div :: "double \<Rightarrow> double \<Rightarrow> double" where
  "double_div (Finite a) (Finite b) =
     (if b = 0 then (if a = 0 then NaN else if 0 < a then PInf else NInf)
      else to_binary64 (a / b))"
| "double_div (Finite a) PInf = Finite 0"
| "double_div (Finite a) NInf = Finite 0"
| "double_div PInf (Finite b) = (if 0 \<le> b then PInf else NInf)"
| "double_div NInf (Finite b) = (if 0 \<le> b then NInf else PInf)"
| "double_div _ _ = NaN"

definition ieee_ops :: "double double_ops" where
  "ieee_ops = \<lparr>to_double = int_to_double, fdiv = double_div\<rparr>"


definition total_polynomials :: "u32 \<Rightarrow> u32 \<Rightarrow> u32 \<Rightarrow> c_int" where
  "total_polynomials input_lwe_dim glwe_dim l_gadget =
     input_lwe_dim * (glwe_dim + 1) * (glwe_dim + 1) * l_gadget"

text \<open>
  The number of \<open>double2\<close> values of the buffers \<open>h_bsk\<close> and \<open>d_bsk\<close>:
  \<open>buffer_size\<close> is \<open>total_polynomials * polynomial_size / 2\<close> (32 bit) times
  \<open>sizeof(double2)\<close>.
\<close>

definition buffer_len :: "c_int \<Rightarrow> u32 \<Rightarrow> nat" where
  "buffer_len tot polynomial_size = unat (tot * polynomial_size div 2)"

text \<open>
  The packing loops. The source array holds the signed type \<open>ST\<close>, read by \<open>sint\<close>;
  the divisor is \<open>std::numeric_limits<T>::max()\<close>, the largest value \<open>T_max\<close>
  of the unsigned type \<open>T\<close> of the same width, converted to \<open>double\<close>. The
  outer counter is compared as \<open>int\<close> with \<open>total_polynomials\<close>, the inner one as
  unsigned with \<open>polynomial_size / 2\<close>.
\<close>

definition T_max :: "'a::len word" where
  "T_max = - 1"

definition pack_pair :: "'d double_ops \<Rightarrow> 'a::len word list \<Rightarrow> c_int \<Rightarrow> c_int \<Rightarrow> 'd double2" where
  "pack_pair ops src torus_current_poly_idx j =
     (fdiv ops (to_double ops (sint (src ! unat (torus_current_poly_idx + 2 * j))))
               (to_double ops (uint (T_max :: 'a word))),
      fdiv ops (to_double ops (sint (src ! unat (torus_current_poly_idx + 2 * j + 1))))
               (to_double ops (uint (T_max :: 'a word))))"

definition complex_current_poly_idx :: "nat \<Rightarrow> u32 \<Rightarrow> c_int" where
  "complex_current_poly_idx i polynomial_size = of_nat i * polynomial_size div 2"

definition torus_current_poly_idx :: "nat \<Rightarrow> u32 \<Rightarrow> c_int" where
  "torus_current_poly_idx i polynomial_size = of_nat i * polynomial_size"

definition pack_polynomial ::
  "'d double_ops \<Rightarrow> 'a::len word list \<Rightarrow> u32 \<Rightarrow> 'd double2 list \<Rightarrow> nat \<Rightarrow> 'd double2 list" where
  "pack_polynomial ops src polynomial_size h_bsk i =
     foldl (\<lambda>h j. h[unat (complex_current_poly_idx i polynomial_size + of_nat j) :=
                      pack_pair ops src (torus_current_poly_idx i polynomial_size) (of_nat j)])
       h_bsk [0..<unat (polynomial_size div 2)]"

definition pack_bsk ::
  "'d double_ops \<Rightarrow> 'a::len word list \<Rightarrow> c_int \<Rightarrow> u32 \<Rightarrow> 'd double2 list \<Rightarrow> 'd double2 list" where
  "pack_bsk ops src tot polynomial_size h_bsk =
     foldl (pack_polynomial ops src polynomial_size) h_bsk [0..<nat (sint tot)]"

text \<open>
  The converter. The forward FFT kernel \<open>batch_NSMFFT\<close> and \<open>choose_opt\<close> are defined
  in other files (\<open>fft/bnsmfft.cuh\<close>, \<open>polynomial/parameters.cuh\<close>): the kernel is the
  parameter \<open>fft\<close>, which maps the degree, the launch configuration (grid, block and
  on-chip sizes), the uploaded buffer and the old destination to the new destination, and
  \<open>choose_opt\<close> is a parameter as well. \<open>h_init\<close> is the content of the fresh host
  buffer. The function is \<open>void\<close>; the model returns the destination buffer and the
  runtime.
\<close>

definition cuda_convert_lwe_bootstrap_key ::
  "'d double_ops \<Rightarrow>
   (u32 \<Rightarrow> c_int \<Rightarrow> c_int \<Rightarrow> c_int \<Rightarrow> 'd double2 list \<Rightarrow> 'd double2 list \<Rightarrow> 'd double2 list) \<Rightarrow>
   (u32 \<Rightarrow> c_int) \<Rightarrow> 'd double2 \<Rightarrow>
   'd double2 list \<Rightarrow> 'a::len word list \<Rightarrow> stream \<Rightarrow> u32 \<Rightarrow> u32 \<Rightarrow> u32 \<Rightarrow> u32 \<Rightarrow> u32 \<Rightarrow>
   cuda_rt \<Rightarrow> 'd double2 list \<times> cuda_rt" where
  "cuda_convert_lwe_bootstrap_key ops fft choose_opt h_init
       dest src v_stream gpu_index input_lwe_dim glwe_dim l_gadget polynomial_size rt =
     (let rt1 = set_device gpu_index rt;
          shared_memory_size = ucast (8 * ucast polynomial_size :: u64) :: c_int;
          tot = total_polynomials input_lwe_dim glwe_dim l_gadget;
          buffer_size = ucast (tot * polynomial_size div 2) * 16 :: u64;
          gridSize = tot;
          blockSize = polynomial_size div choose_opt polynomial_size;
          h_bsk = replicate (buffer_len tot polynomial_size) h_init;
          rt2 = api (cudaMalloc buffer_size) rt1;
          h_bsk1 = pack_bsk ops src tot polynomial_size h_bsk;
          d_bsk = h_bsk1;
          rt3 = api (cudaMemcpy buffer_size cudaMemcpyHostToDevice) rt2;
          (dest1, rt4) =
            (if polynomial_size = 512 \<or> polynomial_size = 1024 \<or> polynomial_size = 2048
                \<or> polynomial_size = 4096 \<or> polynomial_size = 8192
             then (fft polynomial_size gridSize blockSize shared_memory_size d_bsk dest,
                   api (launch_batch_NSMFFT polynomial_size gridSize blockSize
                          shared_memory_size v_stream) rt3)
             else (dest, rt3))
      in (dest1, api cudaFree rt4))"

fun is_fft_launch :: "cuda_call \<Rightarrow> bool" where
  "is_fft_launch (launch_batch_NSMFFT _ _ _ _ _) = True"
| "is_fft_launch _ = False"


section \<open>Blind-rotation kernel\<close>

text \<open>
  \<open>device_bootstrap_amortized\<close> is modelled for one block (one input ciphertext), at the
  level of the block: a buffer is a value, and a device function called by all threads of
  the block between two barriers is one step that maps the buffers it is passed to their
  new contents. The device functions are defined in other files (under \<open>crypto/\<close>,
  \<open>fft/\<close> and \<open>polynomial/\<close>); here they are the fields of a record of
  parameters, with the types of buffers as type parameters: \<open>'t\<close> a torus element,
  \<open>'p\<close> a torus polynomial, \<open>'q\<close> a decomposed polynomial, \<open>'f\<close> a buffer of
  \<open>N/2\<close> complex values, \<open>'lut\<close>, \<open>'key\<close> and \<open>'out\<close> the arrays of look-up tables,
  of the key and of the output ciphertexts. A function that writes through a pointer
  takes the old contents of the destination as an argument and returns the new contents;
  a polynomial inside an array is the array and the index of its first element.
\<close>

record ('t, 'p, 'q, 'f, 'lut, 'key, 'out) device_fns =
  rescale_torus_element :: "'t \<Rightarrow> u32 \<Rightarrow> 't"
  divide_by_monomial_negacyclic_inplace :: "'p \<Rightarrow> 'lut \<Rightarrow> nat \<Rightarrow> 't \<Rightarrow> bool \<Rightarrow> 'p"
  multiply_by_monomial_negacyclic_and_sub_polynomial :: "'p \<Rightarrow> 'p \<Rightarrow> 't \<Rightarrow> 'p"
  round_to_closest_multiple_inplace :: "'p \<Rightarrow> u32 \<Rightarrow> u32 \<Rightarrow> 'p"
  decompose_one_level :: "u32 \<Rightarrow> u32 \<Rightarrow> 'q \<Rightarrow> 'p \<Rightarrow> u32 \<Rightarrow> 'q \<times> 'p"
  real_to_complex_compressed :: "'q \<Rightarrow> 'f \<Rightarrow> 'f"
  NSMFFT_direct :: "'f \<Rightarrow> 'f"
  correction_direct_fft_inplace :: "'f \<Rightarrow> 'f"
  polynomial_product_accumulate_in_fourier_domain :: "'f \<Rightarrow> 'f \<Rightarrow> 'key \<Rightarrow> nat \<Rightarrow> 'f"
  correction_inverse_fft_inplace :: "'f \<Rightarrow> 'f"
  NSMFFT_inverse :: "'f \<Rightarrow> 'f"
  add_to_torus :: "'f \<Rightarrow> 'p \<Rightarrow> 'p"
  sample_extract_mask :: "'out \<Rightarrow> nat \<Rightarrow> 'p \<Rightarrow> 'out"
  sample_extract_body :: "'out \<Rightarrow> nat \<Rightarrow> 'p \<Rightarrow> 'out"
  zero_fft :: "'f"

text \<open>
  The arguments of the kernel that all tiers share. \<open>a_degree\<close> is the template
  constant \<open>params::degree\<close>.
\<close>

record ('t, 'lut, 'key) kernel_args =
  a_lut_vector :: "'lut"
  a_lut_vector_indexes :: "u32 list"
  a_lwe_in :: "'t list"
  a_bootstrapping_key :: "'key"
  a_lwe_mask_size :: u32
  a_polynomial_size :: u32
  a_base_log :: u32
  a_l_gadget :: u32
  a_lwe_idx :: u32
  a_degree :: u32

text \<open>
  The device functions called, in order: a record of what the block has executed, kept
  beside the buffers.
\<close>

datatype kernel_step =
    Divide_by_monomial
  | Multiply_by_monomial_and_sub
  | Round_to_closest_multiple
  | Zero_res_fft
  | Decompose_one_level
  | Real_to_complex_compressed
  | Forward_NSMFFT
  | Correction_direct
  | Product_accumulate
  | Copy_res_fft
  | Correction_inverse
  | Inverse_NSMFFT
  | Add_to_torus
  | Sample_extract_mask
  | Sample_extract_body

text \<open>
  The scratch buffers of a block, by the names of the pointers of the source. Where they
  lie (on-chip memory or the block's region of \<open>device_mem\<close>) depends on the tier and is
  not part of a buffer's value.
\<close>

record ('p, 'q, 'f) scratch =
  accumulator_mask_decomposed :: 'q
  accumulator_body_decomposed :: 'q
  accumulator_mask :: 'p
  accumulator_body :: 'p
  accumulator_mask_rotated :: 'p
  accumulator_body_rotated :: 'p
  mask_res_fft :: 'f
  body_res_fft :: 'f
  accumulator_fft :: 'f
  steps :: "kernel_step list"

definition did :: "kernel_step \<Rightarrow> ('p, 'q, 'f) scratch \<Rightarrow> ('p, 'q, 'f) scratch" where
  "did c s = s\<lparr>steps := steps s @ [c]\<rparr>"

text \<open>
  The positions that the threads of a block write in the two loops of the kernel body
  that are not calls (the zeroing of the result buffers and the copy of the partial
  tier): thread \<open>tid\<close> of the \<open>degree / opt\<close> threads writes \<open>pos = tid\<close>,
  \<open>tid + degree / opt\<close>, ..., \<open>opt / 2\<close> positions in all.
\<close>

definition strided_positions :: "nat \<Rightarrow> nat \<Rightarrow> nat set" where
  "strided_positions degree opt =
     (\<Union>tid \<in> {0..<degree div opt}. \<Union>j \<in> {0..<opt div 2}. {tid + j * (degree div opt)})"

text \<open>Before the loop: the rotation of the look-up table by the body of the ciphertext.\<close>

definition kernel_init ::
  "('t, 'p, 'q, 'f, 'lut, 'key, 'out) device_fns \<Rightarrow> ('t, 'lut, 'key) kernel_args \<Rightarrow> u32 \<Rightarrow>
   ('p, 'q, 'f) scratch \<Rightarrow> ('p, 'q, 'f) scratch" where
  "kernel_init fns a blockIdx s =
     (let block_lwe_in = unat (blockIdx * (a_lwe_mask_size a + 1));
          block_lut_vector =
            unat (a_lut_vector_indexes a ! unat (a_lwe_idx a + blockIdx) * a_degree a * 2);
          b_hat = rescale_torus_element fns
                    (a_lwe_in a ! (block_lwe_in + unat (a_lwe_mask_size a))) (2 * a_degree a);
          s = did Divide_by_monomial (s\<lparr>accumulator_mask :=
                divide_by_monomial_negacyclic_inplace fns (accumulator_mask s)
                  (a_lut_vector a) block_lut_vector b_hat False\<rparr>);
          s = did Divide_by_monomial (s\<lparr>accumulator_body :=
                divide_by_monomial_negacyclic_inplace fns (accumulator_body s)
                  (a_lut_vector a) (block_lut_vector + unat (a_degree a)) b_hat False\<rparr>)
      in s)"

text \<open>One pass of the loop over the decomposition levels.\<close>

definition level_body ::
  "('t, 'p, 'q, 'f, 'lut, 'key, 'out) device_fns \<Rightarrow> ('t, 'lut, 'key) kernel_args \<Rightarrow>
   c_int \<Rightarrow> c_int \<Rightarrow> ('p, 'q, 'f) scratch \<Rightarrow> ('p, 'q, 'f) scratch" where
  "level_body fns a iteration decomp_level s =
     (let (d, r) = decompose_one_level fns (a_base_log a) (a_l_gadget a)
                     (accumulator_mask_decomposed s) (accumulator_mask_rotated s) decomp_level;
          s = did Decompose_one_level
                (s\<lparr>accumulator_mask_decomposed := d, accumulator_mask_rotated := r\<rparr>);
          (d, r) = decompose_one_level fns (a_base_log a) (a_l_gadget a)
                     (accumulator_body_decomposed s) (accumulator_body_rotated s) decomp_level;
          s = did Decompose_one_level
                (s\<lparr>accumulator_body_decomposed := d, accumulator_body_rotated := r\<rparr>);
          s = did Real_to_complex_compressed (s\<lparr>accumulator_fft :=
                real_to_complex_compressed fns (accumulator_mask_decomposed s) (accumulator_fft s)\<rparr>);
          s = did Forward_NSMFFT (s\<lparr>accumulator_fft := NSMFFT_direct fns (accumulator_fft s)\<rparr>);
          s = did Correction_direct
                (s\<lparr>accumulator_fft := correction_direct_fft_inplace fns (accumulator_fft s)\<rparr>);
          bsk_mask_slice = get_ith_mask_kth_block iteration 0 decomp_level
                             (a_polynomial_size a) 1 (a_l_gadget a);
          bsk_body_slice = get_ith_body_kth_block iteration 0 decomp_level
                             (a_polynomial_size a) 1 (a_l_gadget a);
          s = did Product_accumulate (s\<lparr>mask_res_fft :=
                polynomial_product_accumulate_in_fourier_domain fns (mask_res_fft s)
                  (accumulator_fft s) (a_bootstrapping_key a) bsk_mask_slice\<rparr>);
          s = did Product_accumulate (s\<lparr>body_res_fft :=
                polynomial_product_accumulate_in_fourier_domain fns (body_res_fft s)
                  (accumulator_fft s) (a_bootstrapping_key a) bsk_body_slice\<rparr>);
          s = did Real_to_complex_compressed (s\<lparr>accumulator_fft :=
                real_to_complex_compressed fns (accumulator_body_decomposed s) (accumulator_fft s)\<rparr>);
          s = did Forward_NSMFFT (s\<lparr>accumulator_fft := NSMFFT_direct fns (accumulator_fft s)\<rparr>);
          s = did Correction_direct
                (s\<lparr>accumulator_fft := correction_direct_fft_inplace fns (accumulator_fft s)\<rparr>);
          bsk_mask_slice_2 = get_ith_mask_kth_block iteration 1 decomp_level
                               (a_polynomial_size a) 1 (a_l_gadget a);
          bsk_body_slice_2 = get_ith_body_kth_block iteration 1 decomp_level
                               (a_polynomial_size a) 1 (a_l_gadget a);
          s = did Product_accumulate (s\<lparr>mask_res_fft :=
                polynomial_product_accumulate_in_fourier_domain fns (mask_res_fft s)
                  (accumulator_fft s) (a_bootstrapping_key a) bsk_mask_slice_2\<rparr>);
          s = did Product_accumulate (s\<lparr>body_res_fft :=
                polynomial_product_accumulate_in_fourier_domain fns (body_res_fft s)
                  (accumulator_fft s) (a_bootstrapping_key a) bsk_body_slice_2\<rparr>)
      in s)"

text \<open>
  \<open>for (int decomp_level = 0; decomp_level < l_gadget; decomp_level++)\<close>: the counter is
  an \<open>int\<close> compared as unsigned with \<open>l_gadget\<close>.
\<close>

function level_loop ::
  "('t, 'p, 'q, 'f, 'lut, 'key, 'out) device_fns \<Rightarrow> ('t, 'lut, 'key) kernel_args \<Rightarrow>
   c_int \<Rightarrow> c_int \<Rightarrow> ('p, 'q, 'f) scratch \<Rightarrow> ('p, 'q, 'f) scratch" where
  "level_loop fns a iteration decomp_level s =
     (if decomp_level < a_l_gadget a
      then level_loop fns a iteration (decomp_level + 1) (level_body fns a iteration decomp_level s)
      else s)"
  by pat_completeness auto
termination
proof (relation "measure (\<lambda>(fns, a, iteration, decomp_level, s).
    unat (a_l_gadget a) - unat decomp_level)", goal_cases)
  case 1
  show ?case by simp
next
  case (2 fns a iteration decomp_level s)
  have "unat decomp_level < unat (a_l_gadget a)" "unat (a_l_gadget a) < 2 ^ 32"
    using 2 unsigned_less [of "a_l_gadget a"] by (simp_all add: word_less_nat_alt)
  then have "unat decomp_level + unat (1 :: 32 word) < 2 ^ LENGTH(32)"
    by simp
  then have "unat (decomp_level + 1) = unat decomp_level + 1"
    by (simp only: unat_add_lem) simp
  with \<open>unat decomp_level < unat (a_l_gadget a)\<close> show ?case
    by simp
qed

declare level_loop.simps [simp del]

text \<open>
  The end of an iteration: back to coefficients, and addition to the accumulators. The
  full and the no-residency tiers transform the two result buffers in place; the partial
  tier copies each result buffer to \<open>accumulator_fft\<close> first and transforms the copy.
\<close>

definition inverse_phase ::
  "('t, 'p, 'q, 'f, 'lut, 'key, 'out) device_fns \<Rightarrow> sharedMemDegree \<Rightarrow>
   ('p, 'q, 'f) scratch \<Rightarrow> ('p, 'q, 'f) scratch" where
  "inverse_phase fns smd s =
     (if smd = FULLSM \<or> smd = NOSM then
        let s = did Correction_inverse
                  (s\<lparr>mask_res_fft := correction_inverse_fft_inplace fns (mask_res_fft s)\<rparr>);
            s = did Correction_inverse
                  (s\<lparr>body_res_fft := correction_inverse_fft_inplace fns (body_res_fft s)\<rparr>);
            s = did Inverse_NSMFFT (s\<lparr>mask_res_fft := NSMFFT_inverse fns (mask_res_fft s)\<rparr>);
            s = did Inverse_NSMFFT (s\<lparr>body_res_fft := NSMFFT_inverse fns (body_res_fft s)\<rparr>);
            s = did Add_to_torus
                  (s\<lparr>accumulator_mask := add_to_torus fns (mask_res_fft s) (accumulator_mask s)\<rparr>);
            s = did Add_to_torus
                  (s\<lparr>accumulator_body := add_to_torus fns (body_res_fft s) (accumulator_body s)\<rparr>)
        in s
      else
        let s = did Copy_res_fft (s\<lparr>accumulator_fft := mask_res_fft s\<rparr>);
            s = did Correction_inverse
                  (s\<lparr>accumulator_fft := correction_inverse_fft_inplace fns (accumulator_fft s)\<rparr>);
            s = did Inverse_NSMFFT (s\<lparr>accumulator_fft := NSMFFT_inverse fns (accumulator_fft s)\<rparr>);
            s = did Add_to_torus
                  (s\<lparr>accumulator_mask := add_to_torus fns (accumulator_fft s) (accumulator_mask s)\<rparr>);
            s = did Copy_res_fft (s\<lparr>accumulator_fft := body_res_fft s\<rparr>);
            s = did Correction_inverse
                  (s\<lparr>accumulator_fft := correction_inverse_fft_inplace fns (accumulator_fft s)\<rparr>);
            s = did Inverse_NSMFFT (s\<lparr>accumulator_fft := NSMFFT_inverse fns (accumulator_fft s)\<rparr>);
            s = did Add_to_torus
                  (s\<lparr>accumulator_body := add_to_torus fns (accumulator_fft s) (accumulator_body s)\<rparr>)
        in s)"

text \<open>
  One pass of the loop over the mask elements. The test \<open>a_hat == 0\<close> of the source
  guards an empty block (the \<open>continue\<close> in it is commented out).
\<close>

definition iteration_body ::
  "('t::zero, 'p, 'q, 'f, 'lut, 'key, 'out) device_fns \<Rightarrow> sharedMemDegree \<Rightarrow>
   ('t, 'lut, 'key) kernel_args \<Rightarrow> u32 \<Rightarrow> c_int \<Rightarrow> ('p, 'q, 'f) scratch \<Rightarrow> ('p, 'q, 'f) scratch" where
  "iteration_body fns smd a blockIdx iteration s =
     (let block_lwe_in = unat (blockIdx * (a_lwe_mask_size a + 1));
          a_hat = rescale_torus_element fns
                    (a_lwe_in a ! (block_lwe_in + unat iteration)) (2 * a_degree a);
          s = (if a_hat = 0 then s else s);
          s = did Multiply_by_monomial_and_sub (s\<lparr>accumulator_mask_rotated :=
                multiply_by_monomial_negacyclic_and_sub_polynomial fns
                  (accumulator_mask s) (accumulator_mask_rotated s) a_hat\<rparr>);
          s = did Multiply_by_monomial_and_sub (s\<lparr>accumulator_body_rotated :=
                multiply_by_monomial_negacyclic_and_sub_polynomial fns
                  (accumulator_body s) (accumulator_body_rotated s) a_hat\<rparr>);
          s = did Round_to_closest_multiple (s\<lparr>accumulator_mask_rotated :=
                round_to_closest_multiple_inplace fns (accumulator_mask_rotated s)
                  (a_base_log a) (a_l_gadget a)\<rparr>);
          s = did Round_to_closest_multiple (s\<lparr>accumulator_body_rotated :=
                round_to_closest_multiple_inplace fns (accumulator_body_rotated s)
                  (a_base_log a) (a_l_gadget a)\<rparr>);
          s = did Zero_res_fft (s\<lparr>mask_res_fft := zero_fft fns, body_res_fft := zero_fft fns\<rparr>);
          s = level_loop fns a iteration 0 s;
          s = inverse_phase fns smd s
      in s)"

text \<open>
  \<open>for (int iteration = 0; iteration < lwe_mask_size; iteration++)\<close>: the counter is an
  \<open>int\<close> compared as unsigned with \<open>lwe_mask_size\<close>.
\<close>

function blind_rotation ::
  "('t::zero, 'p, 'q, 'f, 'lut, 'key, 'out) device_fns \<Rightarrow> sharedMemDegree \<Rightarrow>
   ('t, 'lut, 'key) kernel_args \<Rightarrow> u32 \<Rightarrow> c_int \<Rightarrow> ('p, 'q, 'f) scratch \<Rightarrow> ('p, 'q, 'f) scratch" where
  "blind_rotation fns smd a blockIdx iteration s =
     (if iteration < a_lwe_mask_size a
      then blind_rotation fns smd a blockIdx (iteration + 1)
             (iteration_body fns smd a blockIdx iteration s)
      else s)"
  by pat_completeness auto
termination
proof (relation "measure (\<lambda>(fns, smd, a, blockIdx, iteration, s).
    unat (a_lwe_mask_size a) - unat iteration)", goal_cases)
  case 1
  show ?case by simp
next
  case (2 fns smd a blockIdx iteration s)
  have "unat iteration < unat (a_lwe_mask_size a)" "unat (a_lwe_mask_size a) < 2 ^ 32"
    using 2 unsigned_less [of "a_lwe_mask_size a"] by (simp_all add: word_less_nat_alt)
  then have "unat iteration + unat (1 :: 32 word) < 2 ^ LENGTH(32)"
    by simp
  then have "unat (iteration + 1) = unat iteration + 1"
    by (simp only: unat_add_lem) simp
  with \<open>unat iteration < unat (a_lwe_mask_size a)\<close> show ?case
    by simp
qed

declare blind_rotation.simps [simp del]

text \<open>
  The kernel for the block \<open>blockIdx\<close>: from the initial contents of its scratch buffers
  and of the output array to the final ones. The sample extraction writes the block's
  slot of the output array.
\<close>

definition device_bootstrap_amortized ::
  "('t::zero, 'p, 'q, 'f, 'lut, 'key, 'out) device_fns \<Rightarrow> sharedMemDegree \<Rightarrow>
   ('t, 'lut, 'key) kernel_args \<Rightarrow> u32 \<Rightarrow> ('p, 'q, 'f) scratch \<times> 'out \<Rightarrow>
   ('p, 'q, 'f) scratch \<times> 'out" where
  "device_bootstrap_amortized fns smd a blockIdx st =
     (case st of (s, lwe_out) \<Rightarrow>
        let s = kernel_init fns a blockIdx s;
            s = blind_rotation fns smd a blockIdx 0 s;
            block_lwe_out = unat (blockIdx * (a_polynomial_size a + 1));
            lwe_out = sample_extract_mask fns lwe_out block_lwe_out (accumulator_mask s);
            s = did Sample_extract_mask s;
            lwe_out = sample_extract_body fns lwe_out block_lwe_out (accumulator_body s);
            s = did Sample_extract_body s
        in (s, lwe_out))"


text \<open>
  What the proofs of tier equivalence need of the device functions that write a
  destination buffer from other buffers: the new contents of the destination do not
  depend on its old contents.
\<close>

definition overwrites :: "('t, 'p, 'q, 'f, 'lut, 'key, 'out) device_fns \<Rightarrow> bool" where
  "overwrites fns \<longleftrightarrow>
     (\<forall>acc acc' input off j z.
        divide_by_monomial_negacyclic_inplace fns acc input off j z =
        divide_by_monomial_negacyclic_inplace fns acc' input off j z)
   \<and> (\<forall>acc r r' j.
        multiply_by_monomial_negacyclic_and_sub_polynomial fns acc r j =
        multiply_by_monomial_negacyclic_and_sub_polynomial fns acc r' j)
   \<and> (\<forall>b l d d' p level. decompose_one_level fns b l d p level = decompose_one_level fns b l d' p level)
   \<and> (\<forall>src d d'. real_to_complex_compressed fns src d = real_to_complex_compressed fns src d')"






text \<open>
  An instance of the device functions over the integers, for the examples: a buffer is one
  integer, an array is a list of integers. The functions that write a destination ignore
  its old contents.
\<close>

definition toy_fns :: "(32 word, int, int, int, int list, int list, int list) device_fns" where
  "toy_fns =
     \<lparr>rescale_torus_element = (\<lambda>x n. x),
      divide_by_monomial_negacyclic_inplace = (\<lambda>acc input off j z. input ! off - sint j),
      multiply_by_monomial_negacyclic_and_sub_polynomial = (\<lambda>acc r j. acc * sint j - acc),
      round_to_closest_multiple_inplace = (\<lambda>p b l. p),
      decompose_one_level = (\<lambda>b l d p level. (p + uint level, p)),
      real_to_complex_compressed = (\<lambda>src d. src),
      NSMFFT_direct = (\<lambda>f. 2 * f),
      correction_direct_fft_inplace = (\<lambda>f. f + 1),
      polynomial_product_accumulate_in_fourier_domain = (\<lambda>res f key off. res + f * key ! off),
      correction_inverse_fft_inplace = (\<lambda>f. f - 1),
      NSMFFT_inverse = (\<lambda>f. 3 * f),
      add_to_torus = (\<lambda>f p. p + f),
      sample_extract_mask = (\<lambda>out off p. out[off := p]),
      sample_extract_body = (\<lambda>out off p. out[off + 1 := p]),
      zero_fft = 0\<rparr>"

definition toy_args :: "(32 word, int list, int list) kernel_args" where
  "toy_args =
     \<lparr>a_lut_vector = [5, 6, 7, 8], a_lut_vector_indexes = [0], a_lwe_in = [0, 1],
      a_bootstrapping_key = [1, 2, 3, 4], a_lwe_mask_size = 1, a_polynomial_size = 2,
      a_base_log = 8, a_l_gadget = 1, a_lwe_idx = 0, a_degree = 2\<rparr>"

definition toy_scratch :: "int \<Rightarrow> (int, int, int) scratch" where
  "toy_scratch x =
     \<lparr>accumulator_mask_decomposed = x, accumulator_body_decomposed = x,
      accumulator_mask = x, accumulator_body = x,
      accumulator_mask_rotated = x, accumulator_body_rotated = x,
      mask_res_fft = x, body_res_fft = x, accumulator_fft = x, steps = []\<rparr>"

text \<open>
  Where the pointer arithmetic at the head of the kernel places the nine buffers: for
  each, the memory it lies in, its byte offset there (from \<open>sharedmem\<close>, or from the
  block's region \<open>&device_mem[blockIdx.x * device_memory_size_per_sample]\<close>) and its
  size in bytes, in the order of the source. \<open>sT\<close> is \<open>sizeof(Torus)\<close>.
\<close>

datatype memory_space = On_chip | Device_global

definition scratch_pointers ::
  "sharedMemDegree \<Rightarrow> nat \<Rightarrow> nat \<Rightarrow> (memory_space \<times> nat \<times> nat) list" where
  "scratch_pointers smd sT polynomial_size =
     (let selected_memory = (if smd = FULLSM then On_chip else Device_global);
          accumulator_mask_decomposed = 0;
          accumulator_body_decomposed = accumulator_mask_decomposed + 2 * polynomial_size;
          accumulator_mask = accumulator_body_decomposed + sT * (polynomial_size div (sT div 2));
          accumulator_body = accumulator_mask + sT * polynomial_size;
          accumulator_mask_rotated = accumulator_body + sT * polynomial_size;
          accumulator_body_rotated = accumulator_mask_rotated + sT * polynomial_size;
          mask_res_fft = accumulator_body_rotated + 16 * (polynomial_size div (16 div sT));
          body_res_fft = mask_res_fft + 16 * (polynomial_size div 2);
          accumulator_fft =
            (if smd \<noteq> PARTIALSM
             then (selected_memory, body_res_fft + 16 * (polynomial_size div 2))
             else (On_chip, 0))
      in [(selected_memory, accumulator_mask_decomposed, 2 * polynomial_size),
          (selected_memory, accumulator_body_decomposed, 2 * polynomial_size),
          (selected_memory, accumulator_mask, sT * polynomial_size),
          (selected_memory, accumulator_body, sT * polynomial_size),
          (selected_memory, accumulator_mask_rotated, sT * polynomial_size),
          (selected_memory, accumulator_body_rotated, sT * polynomial_size),
          (selected_memory, mask_res_fft, 16 * (polynomial_size div 2)),
          (selected_memory, body_res_fft, 16 * (polynomial_size div 2)),
          (fst accumulator_fft, snd accumulator_fft, 16 * (polynomial_size div 2))])"

text \<open>
  The bytes that a launch of a tier provides to a block in each memory: the dynamic
  on-chip size of the launch and the per-sample scratch size, as the launcher passes them.
\<close>

fun launch_memory :: "sharedMemDegree \<Rightarrow> nat \<Rightarrow> nat \<Rightarrow> memory_space \<Rightarrow> nat" where
  "launch_memory NOSM sT N On_chip = 0"
| "launch_memory PARTIALSM sT N On_chip = spec_SM_PART N"
| "launch_memory FULLSM sT N On_chip = spec_SM_FULL sT N"
| "launch_memory smd sT N Device_global = spec_scratch sT N smd"

definition region_within :: "(memory_space \<Rightarrow> nat) \<Rightarrow> memory_space \<times> nat \<times> nat \<Rightarrow> bool" where
  "region_within cap r = (case r of (sp, off, sz) \<Rightarrow> off + sz \<le> cap sp)"

definition regions_apart :: "memory_space \<times> nat \<times> nat \<Rightarrow> memory_space \<times> nat \<times> nat \<Rightarrow> bool" where
  "regions_apart r r' =
     (case (r, r') of ((sp, off, sz), (sp', off', sz')) \<Rightarrow>
        sp \<noteq> sp' \<or> off + sz \<le> off' \<or> off' + sz' \<le> off)"

fun all_apart :: "(memory_space \<times> nat \<times> nat) list \<Rightarrow> bool" where
  "all_apart [] = True"
| "all_apart (r # rs) = (list_all (regions_apart r) rs \<and> all_apart rs)"

section \<open>Theorems\<close>

text \<open>
  C7. The validating allocation check issues no allocating runtime call and returns
  exactly one of three results: -2 (invalid device) if the device index is at least the
  queried device count; otherwise -1 (out of memory) if the requested size exceeds the
  free memory of the device; otherwise 0.
\<close>

theorem cuda_check_valid_malloc_tristate:
  "fst (cuda_check_valid_malloc sz gpu_index rt) =
     (if gpu_index \<ge> num_gpus rt then -2
      else if sz > free_mem rt gpu_index then -1 else 0)
   \<and> filter is_alloc (calls (snd (cuda_check_valid_malloc sz gpu_index rt))) =
     filter is_alloc (calls rt)
   \<and> free_mem (snd (cuda_check_valid_malloc sz gpu_index rt)) = free_mem rt"
  by (simp add: cuda_check_valid_malloc_def cuda_get_number_of_gpus_def set_device_def
      api_def Let_def)

subsection \<open>Casts and footprints\<close>

lemma unat_ucast_32_64: "unat (ucast (N :: u32) :: u64) = unat N"
  by (simp add: unsigned_ucast_eq take_bit_nat_eq_self unsigned_less[where 'b=32, simplified]
      order_less_trans[OF unsigned_less])

lemma unat_ucast_64_32: "unat (ucast (x :: u64) :: u32) = unat x mod 2^32"
  by (simp add: unsigned_ucast_eq take_bit_eq_mod)

lemma scast_of_nat_32_64:
  assumes "n < 2^31"
  shows "(scast (of_nat n :: u32) :: u64) = of_nat n"
proof -
  have u: "uint (of_nat n :: u32) = int n"
    using assms by (simp add: unsigned_of_nat take_bit_nat_eq_self)
  have "sint (of_nat n :: u32) = int n"
    using assms by (simp only: sint_uint u) (simp add: signed_take_bit_int_eq_self)
  then show ?thesis
    by (simp only: scast_eq) simp
qed

lemma unat_scast_32_64:
  assumes "unat (x :: u32) < 2 ^ 31"
  shows "unat (scast x :: u64) = unat x"
proof -
  have "(scast (of_nat (unat x) :: u32) :: u64) = of_nat (unat x)"
    using assms by (rule scast_of_nat_32_64)
  then have "unat (scast x :: u64) = unat (of_nat (unat x) :: u64)"
    by simp
  also have "\<dots> = unat x"
    using assms by (simp only: unat_of_nat) simp
  finally show ?thesis .
qed

lemma unat_mult_32_64: "unat (a * ucast (N :: u32) :: u64) = (unat a * unat N) mod 2 ^ 64"
  by (simp only: unat_word_ariths(2) unat_ucast_32_64) simp

lemma unat_half_16: "unat (16 * ucast (N :: u32) div 2 :: u64) = 8 * unat N"
proof -
  have lt: "unat N < 2 ^ 32"
    using unsigned_less [of N] by simp
  have "unat (16 * ucast N :: u64) = 16 * unat N"
    using lt by (simp add: unat_mult_32_64)
  then show ?thesis
    by (simp add: unat_div)
qed

lemma unat_SM_PART: "unat (SM_PART N) = spec_SM_PART (unat N) mod 2 ^ 32"
  unfolding SM_PART_def spec_SM_PART_def
  by (simp only: unat_ucast_64_32 unat_half_16) simp

lemma unat_SM_FULL:
  assumes "spec_SM_FULL (unat sT) (unat N) < 2 ^ 64"
  shows "unat (SM_FULL sT N) = spec_SM_FULL (unat sT) (unat N) mod 2 ^ 32"
proof -
  define p where "p = sT * (ucast N :: u64)"
  define q where "q = 2 * (ucast N :: u64)"
  define h where "h = (16 * ucast N div 2 :: u64)"
  have bnd: "4 * (unat sT * unat N) + 4 * unat N + 24 * unat N < 2 ^ 64"
    using assms by (simp add: spec_SM_FULL_def)
  have up: "unat p = unat sT * unat N"
    unfolding p_def using bnd by (simp only: unat_mult_32_64) simp
  have uq: "unat q = 2 * unat N"
    unfolding q_def using bnd by (simp only: unat_mult_32_64) simp
  have uh: "unat h = 8 * unat N"
    unfolding h_def by (rule unat_half_16)
  have "unat (p + p + p + p + q + q + h + h + h) =
      (unat p + unat p + unat p + unat p + unat q + unat q + unat h + unat h + unat h) mod 2 ^ 64"
    by (simp only: unat_word_ariths(1) mod_add_left_eq mod_add_right_eq) simp
  also have "\<dots> = spec_SM_FULL (unat sT) (unat N)"
    using bnd by (simp only: up uq uh) (simp add: spec_SM_FULL_def)
  finally show ?thesis
    unfolding SM_FULL_def p_def [symmetric] q_def [symmetric] h_def [symmetric]
    by (simp only: unat_ucast_64_32)
qed

lemma bootstrap_launches_append:
  "bootstrap_launches (xs @ ys) = bootstrap_launches xs @ bootstrap_launches ys"
  by (induction xs rule: bootstrap_launches.induct) simp_all

subsection \<open>Launch configurator\<close>

text \<open>
  C2. Tier selection depends only on the on-chip capacity, the polynomial degree and
  the torus width. As long as the full footprint fits a C \<open>int\<close>, the footprints
  computed by the launcher are \<open>SM_FULL = 4*sizeof(Torus)*N + 2*2*N + 3*16*N/2\<close> and
  \<open>SM_PART = 16*N/2\<close>; the launcher issues exactly one kernel launch; its tier is
  the richest that fits (full when capacity \<ge> SM_FULL, partial when
  SM_PART \<le> capacity < SM_FULL, none when capacity < SM_PART); and the per-sample
  scratch passed to the kernel is SM_FULL, SM_FULL - SM_PART and 0 for the no-residency,
  partial and full tier.
\<close>

theorem tier_selection:
  assumes "spec_SM_FULL (unat sizeof_Torus) (unat polynomial_size) < 2 ^ 31"
  shows "unat (SM_FULL sizeof_Torus polynomial_size) =
           spec_SM_FULL (unat sizeof_Torus) (unat polynomial_size)
       \<and> unat (SM_PART polynomial_size) = spec_SM_PART (unat polynomial_size)
       \<and> bootstrap_launches (calls (host_bootstrap_amortized sizeof_Torus opt v_stream
             polynomial_size input_lwe_ciphertext_count max_shared_memory rt)) =
           bootstrap_launches (calls rt) @
           [(spec_tier (unat sizeof_Torus) (unat polynomial_size) (unat max_shared_memory),
             spec_scratch (unat sizeof_Torus) (unat polynomial_size)
               (spec_tier (unat sizeof_Torus) (unat polynomial_size) (unat max_shared_memory)))]"
proof -
  let ?F = "spec_SM_FULL (unat sizeof_Torus) (unat polynomial_size)"
  let ?P = "spec_SM_PART (unat polynomial_size)"
  have PF: "?P \<le> ?F"
    by (simp add: spec_SM_FULL_def spec_SM_PART_def)
  have F: "unat (SM_FULL sizeof_Torus polynomial_size) = ?F"
    using assms by (simp add: unat_SM_FULL)
  have P: "unat (SM_PART polynomial_size) = ?P"
    using assms PF by (simp add: unat_SM_PART)
  have le: "SM_PART polynomial_size \<le> SM_FULL sizeof_Torus polynomial_size"
    using PF by (simp add: word_le_nat_alt F P)
  have D: "unat (DM_PART sizeof_Torus polynomial_size) = ?F - ?P"
    unfolding DM_PART_def using le by (simp add: unat_sub F P)
  have sF: "unat (scast (DM_FULL sizeof_Torus polynomial_size) :: u64) = ?F"
    unfolding DM_FULL_def using assms by (simp add: unat_scast_32_64 F)
  have sD: "unat (scast (DM_PART sizeof_Torus polynomial_size) :: u64) = ?F - ?P"
    using assms by (simp add: unat_scast_32_64 D)
  have c1: "max_shared_memory < SM_PART polynomial_size \<longleftrightarrow> unat max_shared_memory < ?P"
    by (simp add: word_less_nat_alt P)
  have c2: "max_shared_memory < SM_FULL sizeof_Torus polynomial_size \<longleftrightarrow>
      unat max_shared_memory < ?F"
    by (simp add: word_less_nat_alt F)
  have "bootstrap_launches (calls (host_bootstrap_amortized sizeof_Torus opt v_stream
             polynomial_size input_lwe_ciphertext_count max_shared_memory rt)) =
           bootstrap_launches (calls rt) @
           [(spec_tier (unat sizeof_Torus) (unat polynomial_size) (unat max_shared_memory),
             spec_scratch (unat sizeof_Torus) (unat polynomial_size)
               (spec_tier (unat sizeof_Torus) (unat polynomial_size) (unat max_shared_memory)))]"
    using PF
    by (simp add: host_bootstrap_amortized_def Let_def api_def bootstrap_launches_append
        c1 c2 sF sD spec_tier_def not_less)
  with F P show ?thesis by simp
qed

text \<open>
  An instance: 64-bit torus, degree 1024 and 48 KiB of on-chip memory select the
  partial tier with 61440 - 8192 bytes of scratch per sample.
\<close>

theorem tier_selection_witness:
  "spec_SM_FULL (unat (8 :: u64)) (unat (1024 :: u32)) < 2 ^ 31
   \<and> bootstrap_launches (calls (host_bootstrap_amortized 8 4 7 1024 10 49152 one_gpu_rt)) =
       [(PARTIALSM, 53248)]"
  using tier_selection [of 8 1024 4 7 10 49152 one_gpu_rt]
  by (simp add: spec_SM_FULL_def spec_SM_PART_def spec_tier_def one_gpu_rt_def)

subsection \<open>Asynchronous copies\<close>

lemma cuda_memcpy_async_to_gpu_code:
  "fst (cuda_memcpy_async_to_gpu dest src sz v_stream gpu_index rt) =
     (if sz = 0 then -3
      else if gpu_index \<ge> num_gpus rt then -2
      else if attr_device (pointer_attributes rt dest) \<noteq> gpu_index
              \<and> attr_type (pointer_attributes rt dest) \<noteq> cudaMemoryTypeDevice then -1
      else 0)"
  by (simp add: cuda_memcpy_async_to_gpu_def cuda_get_number_of_gpus_def set_device_def
      api_def Let_def)

lemma cuda_memcpy_async_to_cpu_code:
  "fst (cuda_memcpy_async_to_cpu dest src sz v_stream gpu_index rt) =
     (if sz = 0 then -3
      else if gpu_index \<ge> num_gpus rt then -2
      else if attr_device (pointer_attributes rt src) \<noteq> gpu_index
              \<and> attr_type (pointer_attributes rt src) \<noteq> cudaMemoryTypeDevice then -1
      else 0)"
  by (simp add: cuda_memcpy_async_to_cpu_def cuda_get_number_of_gpus_def set_device_def
      api_def Let_def)

text \<open>
  C6. The copies return -3 for a zero size, else -2 for a device index out of range, as
  claimed. The pointer test, however, rejects a pointer only when both its device and its
  memory kind differ from the expected ones. With two devices, a device pointer that
  belongs to device 1 and a copy for device 0 (size 8): the device attribute does not
  match, the claim requires the invalid-pointer result -1, and both copies return 0 and
  enqueue the copy. Likewise for a pointer to host memory registered with device 0: the
  memory kind does not match, and the copy to the device returns 0 and is enqueued.
\<close>

theorem memcpy_async_accepts_foreign_pointer:
  "attr_device (pointer_attributes two_gpu_rt 4096) \<noteq> 0
   \<and> cuda_memcpy_async_to_gpu 4096 0 8 7 0 two_gpu_rt =
       (0, two_gpu_rt\<lparr>calls := [cudaGetDeviceCount, cudaPointerGetAttributes 4096,
            cudaSetDevice 0, cudaMemcpyAsync 4096 0 8 cudaMemcpyHostToDevice 7]\<rparr>)
   \<and> cuda_memcpy_async_to_cpu 0 4096 8 7 0 two_gpu_rt =
       (0, two_gpu_rt\<lparr>calls := [cudaGetDeviceCount, cudaPointerGetAttributes 4096,
            cudaSetDevice 0, cudaMemcpyAsync 0 4096 8 cudaMemcpyDeviceToHost 7]\<rparr>)
   \<and> attr_type (pointer_attributes pinned_host_rt 4096) \<noteq> cudaMemoryTypeDevice
   \<and> cuda_memcpy_async_to_gpu 4096 0 8 7 0 pinned_host_rt =
       (0, pinned_host_rt\<lparr>calls := [cudaGetDeviceCount, cudaPointerGetAttributes 4096,
            cudaSetDevice 0, cudaMemcpyAsync 4096 0 8 cudaMemcpyHostToDevice 7]\<rparr>)"
  by (simp add: cuda_memcpy_async_to_gpu_def cuda_memcpy_async_to_cpu_def
      cuda_get_number_of_gpus_def set_device_def api_def two_gpu_rt_def pinned_host_rt_def)

subsection \<open>Which host calls wait for the device\<close>

text \<open>
  C9, as stated, fails for the bootstrap entry point: for a 64-bit torus, degree 1024,
  ten ciphertexts and 48 KiB of on-chip memory, the calls it issues include a
  synchronization of its stream, so it returns only after the kernel has completed.
\<close>

theorem bootstrap_entry_point_blocks:
  "filter is_synchronize (calls (host_bootstrap_amortized 8 4 7 1024 10 49152 one_gpu_rt)) =
     [cudaStreamSynchronize 7]"
  by (simp add: host_bootstrap_amortized_def SM_FULL_def SM_PART_def DM_PART_def DM_FULL_def
      api_def one_gpu_rt_def Let_def)

text \<open>
  C9, amended. The asynchronous copies issue no synchronizing call, whatever they
  return; \<open>cuda_synchronize_device\<close> on a valid device issues
  \<open>cudaDeviceSynchronize\<close>; and the bootstrap entry point, in every tier, issues its
  kernel launch, then \<open>cudaStreamSynchronize\<close> on its stream, then \<open>cudaFree\<close>, with
  no synchronizing call before the launch: it waits for its own kernel.
\<close>

theorem host_blocking_calls:
  "filter is_synchronize (calls (snd (cuda_memcpy_async_to_gpu dest src sz v_stream gpu_index rt))) =
     filter is_synchronize (calls rt)
   \<and> filter is_synchronize (calls (snd (cuda_memcpy_async_to_cpu dest src sz v_stream gpu_index rt))) =
     filter is_synchronize (calls rt)
   \<and> calls (snd (cuda_synchronize_device gpu_index rt)) =
     calls rt @ (if gpu_index \<ge> num_gpus rt then [cudaGetDeviceCount]
                 else [cudaGetDeviceCount, cudaSetDevice gpu_index, cudaDeviceSynchronize])
   \<and> (\<exists>pre c. calls (host_bootstrap_amortized sizeof_Torus opt v_stream polynomial_size
                     input_lwe_ciphertext_count max_shared_memory rt) =
                 calls rt @ pre @ [c, cudaStreamSynchronize v_stream, cudaFree]
              \<and> bootstrap_launches [c] \<noteq> [] \<and> filter is_synchronize pre = [])"
proof -
  have a: "filter is_synchronize (calls (snd (cuda_memcpy_async_to_gpu dest src sz v_stream gpu_index rt))) =
     filter is_synchronize (calls rt)"
    by (simp add: cuda_memcpy_async_to_gpu_def cuda_get_number_of_gpus_def set_device_def
        api_def Let_def)
  have b: "filter is_synchronize (calls (snd (cuda_memcpy_async_to_cpu dest src sz v_stream gpu_index rt))) =
     filter is_synchronize (calls rt)"
    by (simp add: cuda_memcpy_async_to_cpu_def cuda_get_number_of_gpus_def set_device_def
        api_def Let_def)
  have c: "calls (snd (cuda_synchronize_device gpu_index rt)) =
     calls rt @ (if gpu_index \<ge> num_gpus rt then [cudaGetDeviceCount]
                 else [cudaGetDeviceCount, cudaSetDevice gpu_index, cudaDeviceSynchronize])"
    by (simp add: cuda_synchronize_device_def cuda_get_number_of_gpus_def set_device_def
        api_def Let_def)
  have d: "\<exists>pre c. calls (host_bootstrap_amortized sizeof_Torus opt v_stream polynomial_size
                     input_lwe_ciphertext_count max_shared_memory rt) =
                 calls rt @ pre @ [c, cudaStreamSynchronize v_stream, cudaFree]
              \<and> bootstrap_launches [c] \<noteq> [] \<and> filter is_synchronize pre = []"
  proof (cases "max_shared_memory < SM_PART polynomial_size")
    case True
    then show ?thesis
      by (simp add: host_bootstrap_amortized_def Let_def api_def)
  next
    case False
    note nP = this
    show ?thesis
    proof (cases "max_shared_memory < SM_FULL sizeof_Torus polynomial_size")
      case True
      show ?thesis
        apply (rule exI [of _ "[cudaFuncSetAttribute PARTIALSM (SM_PART polynomial_size),
            cudaFuncSetCacheConfig PARTIALSM,
            cudaMalloc (ucast (DM_PART sizeof_Torus polynomial_size * input_lwe_ciphertext_count))]"])
        using nP True by (simp add: host_bootstrap_amortized_def Let_def api_def)
    next
      case False
      show ?thesis
        apply (rule exI [of _ "[cudaFuncSetAttribute FULLSM (SM_FULL sizeof_Torus polynomial_size),
            cudaFuncSetCacheConfig FULLSM, cudaMalloc 0]"])
        using nP False by (simp add: host_bootstrap_amortized_def Let_def api_def)
    qed
  qed
  from a b c d show ?thesis by blast
qed

subsection \<open>Layout of the bootstrapping key\<close>

lemma sint_of_nat_32:
  assumes "n < 2^31"
  shows "sint (of_nat n :: u32) = int n"
proof -
  have u: "uint (of_nat n :: u32) = int n"
    using assms by (simp add: unsigned_of_nat take_bit_nat_eq_self)
  show ?thesis
    using assms by (simp only: sint_uint u) (simp add: signed_take_bit_int_eq_self)
qed

lemma unat_mult_nowrap:
  "unat a * unat b < 2 ^ 32 \<Longrightarrow> unat (a * b :: u32) = unat a * unat b"
  using unat_mult_lem [of a b] by simp

lemma unat_add_nowrap:
  "unat a + unat b < 2 ^ 32 \<Longrightarrow> unat (a + b :: u32) = unat a + unat b"
  using unat_add_lem [of a b] by simp

lemma unat_term_nowrap:
  fixes x N :: u32
  assumes N: "unat N = 2 * h" and b: "unat x * h * 4 * L < 2 ^ 32" and L: "1 \<le> L"
  shows "unat (x * N div 2) = unat x * h"
    and "unat (x * N div 2 * 2) = unat x * h * 2"
    and "unat (x * N div 2 * 2 * 2) = unat x * h * 4"
proof -
  have "unat x * h * 4 \<le> unat x * h * 4 * L"
    using L by simp
  from this b have b4: "unat x * h * 4 < 2 ^ 32"
    by (rule le_less_trans)
  have "unat (x * N) = unat x * (2 * h)"
    using b4 by (subst unat_mult_nowrap) (simp_all add: N)
  then show 1: "unat (x * N div 2) = unat x * h"
    by (simp add: unat_div)
  show 2: "unat (x * N div 2 * 2) = unat x * h * 2"
    using b4 by (subst unat_mult_nowrap) (simp_all add: 1)
  show "unat (x * N div 2 * 2 * 2) = unat x * h * 4"
    using b4 by (subst unat_mult_nowrap) (simp_all add: 2)
qed

lemma block_offsets:
  fixes i k level l_gadget polynomial_size :: u32
  assumes ev: "even (unat polynomial_size)"
    and fits: "4 * unat n * unat l_gadget * unat polynomial_size < 2 ^ 32"
    and i: "unat i < unat (n :: u32)" and lv: "unat level < unat l_gadget"
    and k: "unat k < 2"
  shows "get_ith_mask_kth_block i k level polynomial_size 1 l_gadget =
           (((unat i * unat l_gadget + unat level) * 2 + unat k) * 2) * (unat polynomial_size div 2)"
    and "get_ith_body_kth_block i k level polynomial_size 1 l_gadget =
           (((unat i * unat l_gadget + unat level) * 2 + unat k) * 2 + 1) * (unat polynomial_size div 2)"
    and "((unat i * unat l_gadget + unat level) * 2 + unat k) * 2 + 1 < 4 * unat n * unat l_gadget"
proof -
  define h where "h = unat polynomial_size div 2"
  define a where "a = unat i"
  define L where "L = unat l_gadget"
  define v where "v = unat level"
  define c where "c = unat k"
  define m where "m = unat n"
  have N: "unat polynomial_size = 2 * h"
    using ev by (simp add: h_def)
  have L1: "1 \<le> L"
    using lv by (simp add: L_def)
  have big: "4 * m * L * h < 2 ^ 31"
    using fits by (simp add: N m_def L_def)
  have "(a + 1) * L \<le> m * L"
    using i by (intro mult_le_mono1) (simp add: a_def m_def)
  then have p1: "a * L + v + 1 \<le> m * L"
    using lv by (simp add: v_def L_def)
  then have p2: "((a * L + v) * 2 + c) * 2 + 2 \<le> 4 * m * L"
    using k by (simp add: c_def)
  define P where "P = ((a * L + v) * 2 + c) * 2"
  have "(P + 2) * h \<le> 4 * m * L * h"
    using p2 unfolding P_def by (intro mult_le_mono1)
  from this big have tot: "(P + 2) * h < 2 ^ 31"
    by (rule le_less_trans)
  define S where "S = a * h * 4 * L"
  define V where "V = v * h * 4"
  define C where "C = c * h * 2"
  have split: "P * h = S + V + C"
    by (simp add: P_def S_def V_def C_def algebra_simps)
  have "(P + 2) * h = S + V + C + 2 * h"
    by (simp only: add_mult_distrib split)
  with tot have tot': "S + V + C + 2 * h < 2 ^ 31"
    by simp
  have "v * h * 4 \<le> v * h * 4 * L" "c * h * 4 \<le> c * h * 4 * L"
    using L1 by simp_all
  have "S < 2 ^ 32" "V * 1 < 2 ^ 32" "C * 2 * 1 < 2 ^ 32"
    using tot' by simp_all
  then have bs: "unat i * h * 4 * L < 2 ^ 32"
    and bv: "unat level * h * 4 * 1 < 2 ^ 32"
    and bc: "unat k * h * 2 * 2 * 1 < 2 ^ 32"
    unfolding S_def V_def C_def a_def v_def c_def .
  have bc: "unat k * h * 4 * 1 < 2 ^ 32"
    using bc by simp
  have t3: "unat (i * polynomial_size div 2 * 2 * 2) = unat i * h * 4"
    by (rule unat_term_nowrap(3) [OF N bs L1])
  have "unat (i * polynomial_size div 2 * 2 * 2 * l_gadget) =
      unat (i * polynomial_size div 2 * 2 * 2) * unat l_gadget"
    by (rule unat_mult_nowrap) (unfold t3 L_def [symmetric], rule bs)
  then have uS: "unat (i * polynomial_size div 2 * 2 * 2 * l_gadget) = S"
    unfolding t3 S_def a_def L_def .
  have uV: "unat (level * polynomial_size div 2 * 2 * 2) = V"
    unfolding V_def v_def by (rule unat_term_nowrap(3) [OF N bv order_refl])
  have uC: "unat (k * polynomial_size div 2 * 2) = C"
    unfolding C_def c_def by (rule unat_term_nowrap(2) [OF N bc order_refl])
  have uH: "unat (polynomial_size div 2) = h"
    unfolding h_def by (simp add: unat_div)
  have "S + V < 2 ^ 32" "S + V + C < 2 ^ 32" "S + V + C + h < 2 ^ 32"
    using tot' by simp_all
  note sums = this
  have uSV: "unat (i * polynomial_size div 2 * 2 * 2 * l_gadget +
      level * polynomial_size div 2 * 2 * 2) = S + V"
    using sums(1) unfolding uS [symmetric] uV [symmetric] by (rule unat_add_nowrap)
  have uSVC: "unat (i * polynomial_size div 2 * 2 * 2 * l_gadget +
      level * polynomial_size div 2 * 2 * 2 + k * polynomial_size div 2 * 2) = S + V + C"
    using sums(2) unfolding uSV [symmetric] uC [symmetric] by (rule unat_add_nowrap)
  have uAll: "unat (i * polynomial_size div 2 * 2 * 2 * l_gadget +
      level * polynomial_size div 2 * 2 * 2 + k * polynomial_size div 2 * 2 +
      polynomial_size div 2) = S + V + C + h"
    using sums(3) unfolding uSVC [symmetric] uH [symmetric] by (rule unat_add_nowrap)
  have one: "(1 + 1 :: u32) = 2"
    by simp
  show "((unat i * unat l_gadget + unat level) * 2 + unat k) * 2 + 1 < 4 * unat n * unat l_gadget"
    using p2 by (simp add: a_def L_def v_def c_def m_def)
  have fin: "S + V + C = P * h"
    by (rule split [symmetric])
  show "get_ith_mask_kth_block i k level polynomial_size 1 l_gadget =
           (((unat i * unat l_gadget + unat level) * 2 + unat k) * 2) * (unat polynomial_size div 2)"
    unfolding get_ith_mask_kth_block_def get_start_ith_ggsw_def one uSVC fin
    unfolding P_def a_def L_def v_def c_def h_def ..
  have "S + V + C + h = (P + 1) * h"
    by (simp only: fin add_mult_distrib mult_1)
  then show "get_ith_body_kth_block i k level polynomial_size 1 l_gadget =
           (((unat i * unat l_gadget + unat level) * 2 + unat k) * 2 + 1) * (unat polynomial_size div 2)"
    unfolding get_ith_body_kth_block_def get_start_ith_ggsw_def one uAll
    unfolding P_def a_def L_def v_def c_def h_def .
qed

lemma key_polynomial_inj:
  assumes eq: "key_polynomial b i k v L = key_polynomial b' i' k' v' L"
    and "v < L" "v' < L" "k < 2" "k' < 2"
  shows "b = b' \<and> i = i' \<and> k = k' \<and> v = v'"
proof -
  define X where "X = i * L + v"
  define X' where "X' = i' * L + v'"
  have "b = b' \<and> X = X' \<and> k = k'"
    using eq assms(4,5) unfolding X_def [symmetric] X'_def [symmetric]
    by (cases b; cases b') (simp_all add: X_def [symmetric] X'_def [symmetric], presburger+)
  moreover have "X div L = i" "X mod L = v" "X' div L = i'" "X' mod L = v'"
    using assms(2,3) by (simp_all add: X_def X'_def)
  ultimately show ?thesis by metis
qed

lemma slices_disjoint:
  assumes "p \<noteq> p'"
  shows "slice (p * h) h \<inter> slice (p' * h) h = {}"
proof -
  have a: "q < q' \<Longrightarrow> slice (q * h) h \<inter> slice (q' * h) h = {}" for q q' :: nat
  proof -
    assume "q < q'"
    then have "(q + 1) * h \<le> q' * h"
      by (intro mult_le_mono1) simp
    then show ?thesis
      by (auto simp: slice_def)
  qed
  from assms consider "p < p'" | "p' < p" by linarith
  then show ?thesis
    using a [of p p'] a [of p' p] by cases auto
qed

lemma buffer_len_glwe1:
  assumes fits: "4 * unat n * unat l_gadget * unat polynomial_size < 2 ^ 32"
  shows "buffer_len (total_polynomials n 1 l_gadget) polynomial_size =
      4 * unat n * unat l_gadget * unat polynomial_size div 2"
proof -
  have "total_polynomials n 1 l_gadget * polynomial_size =
      of_nat (4 * unat n * unat l_gadget * unat polynomial_size)"
    by (simp add: total_polynomials_def)
  then have "unat (total_polynomials n 1 l_gadget * polynomial_size) =
      4 * unat n * unat l_gadget * unat polynomial_size"
    using fits by (simp only: unat_of_nat) simp
  then show ?thesis
    by (simp add: buffer_len_def unat_div)
qed

lemma buffer_len_any_glwe:
  assumes fits: "unat n * (unat g + 1)\<^sup>2 * unat l_gadget * unat polynomial_size < 2 ^ 32"
  shows "buffer_len (total_polynomials n g l_gadget) polynomial_size =
      unat n * (unat g + 1)\<^sup>2 * unat l_gadget * unat polynomial_size div 2"
proof -
  have "total_polynomials n g l_gadget * polynomial_size =
      of_nat (unat n * (unat g + 1)\<^sup>2 * unat l_gadget * unat polynomial_size)"
    by (simp add: total_polynomials_def power2_eq_square algebra_simps)
  then have "unat (total_polynomials n g l_gadget * polynomial_size) =
      unat n * (unat g + 1)\<^sup>2 * unat l_gadget * unat polynomial_size"
    using fits by (simp only: unat_of_nat) simp
  then show ?thesis
    by (simp add: buffer_len_def unat_div)
qed

lemma total_polynomials_glwe1:
  assumes fits: "4 * unat n * unat l_gadget < 2 ^ 31"
  shows "nat (sint (total_polynomials n 1 l_gadget)) = 4 * unat n * unat l_gadget"
proof -
  have e: "total_polynomials n 1 l_gadget = of_nat (4 * unat n * unat l_gadget)"
    by (simp add: total_polynomials_def)
  have "sint (total_polynomials n 1 l_gadget) = int (4 * unat n * unat l_gadget)"
    unfolding e using fits by (rule sint_of_nat_32)
  then show ?thesis
    by (simp only: nat_int)
qed

lemma unat_complex_current_poly_idx:
  assumes "p * unat polynomial_size < 2 ^ 32"
  shows "unat (complex_current_poly_idx p polynomial_size) = p * unat polynomial_size div 2"
proof -
  have "unat (of_nat p * polynomial_size :: u32) = unat (of_nat (p * unat polynomial_size) :: u32)"
    by simp
  also have "\<dots> = p * unat polynomial_size"
    using assms by (simp only: unat_of_nat) simp
  finally show ?thesis
    by (simp add: complex_current_poly_idx_def unat_div)
qed

text \<open>
  C10. For an even polynomial size \<open>N\<close> and a key that fits 32-bit indexing, the key
  buffer of the converter holds exactly \<open>input_lwe_dim * (glwe_dim + 1)^2 * levels * N/2\<close>
  complex values, that is \<open>input_lwe_dim * levels * 4 * N/2\<close> for the \<open>glwe_dimension\<close> 1
  of the kernel. With \<open>glwe_dimension\<close> 1, for every iteration
  \<open>i < input_lwe_dim\<close>, \<open>k\<close> in \<open>{0, 1}\<close> and level below \<open>levels\<close>, the slice of
  \<open>N/2\<close> values at the index returned by the mask-block and the body-block function
  lies within the buffer; the slices of two different blocks are disjoint; and the
  index is the offset \<open>complex_current_poly_idx\<close> at which the converter writes one of
  the polynomials it processes, the one numbered \<open>key_polynomial\<close>.
\<close>

theorem key_layout:
  fixes n l_gadget polynomial_size i k level i' k' level' :: u32
  assumes ev: "even (unat polynomial_size)" and pos: "0 < unat polynomial_size"
    and fits: "4 * unat n * unat l_gadget * unat polynomial_size < 2 ^ 32"
    and i: "unat i < unat n" and lv: "unat level < unat l_gadget" and k: "unat k < 2"
    and i': "unat i' < unat n" and lv': "unat level' < unat l_gadget" and k': "unat k' < 2"
    and fitsg: "unat n * (unat g + 1)\<^sup>2 * unat l_gadget * unat polynomial_size < 2 ^ 32"
  shows "buffer_len (total_polynomials n g l_gadget) polynomial_size =
           unat n * (unat g + 1)\<^sup>2 * unat l_gadget * unat polynomial_size div 2
       \<and> buffer_len (total_polynomials n 1 l_gadget) polynomial_size =
           unat n * unat l_gadget * 4 * (unat polynomial_size div 2)
       \<and> slice (kth_block b i k level polynomial_size 1 l_gadget) (unat polynomial_size div 2)
           \<subseteq> {0 ..< buffer_len (total_polynomials n 1 l_gadget) polynomial_size}
       \<and> ((b, i, k, level) \<noteq> (b', i', k', level') \<longrightarrow>
           slice (kth_block b i k level polynomial_size 1 l_gadget) (unat polynomial_size div 2)
           \<inter> slice (kth_block b' i' k' level' polynomial_size 1 l_gadget) (unat polynomial_size div 2)
           = {})
       \<and> key_polynomial b (unat i) (unat k) (unat level) (unat l_gadget)
           < nat (sint (total_polynomials n 1 l_gadget))
       \<and> kth_block b i k level polynomial_size 1 l_gadget =
           unat (complex_current_poly_idx
                  (key_polynomial b (unat i) (unat k) (unat level) (unat l_gadget)) polynomial_size)"
proof -
  define h where "h = unat polynomial_size div 2"
  define T where "T = 4 * unat n * unat l_gadget"
  let ?p = "key_polynomial b (unat i) (unat k) (unat level) (unat l_gadget)"
  let ?p' = "key_polynomial b' (unat i') (unat k') (unat level') (unat l_gadget)"
  have N: "unat polynomial_size = 2 * h"
    using ev by (simp add: h_def)
  have h1: "1 \<le> h"
    using pos N by simp
  have TN: "T * (2 * h) < 2 ^ 32"
    using fits by (simp add: T_def N)
  have "T * 2 \<le> T * (2 * h)"
    using h1 by simp
  from this TN have "T * 2 < 2 ^ 32"
    by (rule le_less_trans)
  then have T31: "T < 2 ^ 31"
    by simp
  have len: "buffer_len (total_polynomials n 1 l_gadget) polynomial_size = T * h"
    using buffer_len_glwe1 [OF fits] by (simp add: T_def N)
  have tot: "nat (sint (total_polynomials n 1 l_gadget)) = T"
    using total_polynomials_glwe1 [of n l_gadget] T31 by (simp add: T_def)
  have off: "kth_block b i k level polynomial_size 1 l_gadget = ?p * h" and lt: "?p < T"
    using block_offsets [OF ev fits i lv k] by (cases b; simp add: h_def T_def)+
  have off': "kth_block b' i' k' level' polynomial_size 1 l_gadget = ?p' * h"
    using block_offsets [OF ev fits i' lv' k'] by (cases b'; simp add: h_def)
  have "(?p + 1) * h \<le> T * h"
    using lt by (intro mult_le_mono1) simp
  then have sub: "slice (?p * h) h \<subseteq> {0 ..< T * h}"
    by (auto simp: slice_def)
  have dis: "slice (?p * h) h \<inter> slice (?p' * h) h = {}" if "(b, i, k, level) \<noteq> (b', i', k', level')"
  proof -
    have "?p \<noteq> ?p'"
    proof
      assume "?p = ?p'"
      then have "b = b' \<and> unat i = unat i' \<and> unat k = unat k' \<and> unat level = unat level'"
        using lv lv' k k' by (intro key_polynomial_inj)
      with that show False by (simp add: word_unat_eq_iff)
    qed
    then show ?thesis by (rule slices_disjoint)
  qed
  have "?p * (2 * h) \<le> T * (2 * h)"
    using lt by (intro mult_le_mono1) simp
  with TN have "?p * unat polynomial_size < 2 ^ 32"
    by (simp only: N)
  then have idx: "unat (complex_current_poly_idx ?p polynomial_size) = ?p * h"
    by (simp only: unat_complex_current_poly_idx) (simp add: N)
  have "buffer_len (total_polynomials n 1 l_gadget) polynomial_size =
           unat n * unat l_gadget * 4 * (unat polynomial_size div 2)
       \<and> slice (kth_block b i k level polynomial_size 1 l_gadget) (unat polynomial_size div 2)
           \<subseteq> {0 ..< buffer_len (total_polynomials n 1 l_gadget) polynomial_size}
       \<and> ((b, i, k, level) \<noteq> (b', i', k', level') \<longrightarrow>
           slice (kth_block b i k level polynomial_size 1 l_gadget) (unat polynomial_size div 2)
           \<inter> slice (kth_block b' i' k' level' polynomial_size 1 l_gadget) (unat polynomial_size div 2)
           = {})
       \<and> key_polynomial b (unat i) (unat k) (unat level) (unat l_gadget)
           < nat (sint (total_polynomials n 1 l_gadget))
       \<and> kth_block b i k level polynomial_size 1 l_gadget =
           unat (complex_current_poly_idx
                  (key_polynomial b (unat i) (unat k) (unat level) (unat l_gadget)) polynomial_size)"
    unfolding len tot off off' idx h_def [symmetric]
    using sub dis lt by (simp add: T_def)
  with buffer_len_any_glwe [OF fitsg] show ?thesis
    by (rule conjI)
qed

text \<open>
  An instance: two entries, two levels, degree 8. The body block of entry 1, level 1,
  \<open>k = 1\<close> is polynomial 15 at index 60 of a buffer of 64 values.
\<close>

theorem key_layout_witness:
  "even (unat (8 :: u32)) \<and> 4 * unat (2 :: u32) * unat (2 :: u32) * unat (8 :: u32) < (2 :: nat) ^ 32
   \<and> buffer_len (total_polynomials 2 2 2) 8 = 144
   \<and> buffer_len (total_polynomials 2 1 2) 8 = 64
   \<and> get_ith_body_kth_block 1 1 1 8 1 2 = 60
   \<and> get_ith_mask_kth_block 0 0 0 8 1 2 = 0
   \<and> slice 60 4 \<subseteq> {0 ..< 64}
   \<and> slice 60 4 \<inter> slice 0 4 = {}
   \<and> complex_current_poly_idx 15 8 = 60"
  using key_layout [of 8 2 2 1 1 1 0 0 0 2 Body_block Mask_block]
  by (auto simp add: get_ith_body_kth_block_def get_ith_mask_kth_block_def get_start_ith_ggsw_def
      complex_current_poly_idx_def)

subsection \<open>Bootstrapping-key converter\<close>




lemma unat_of_nat_32: "n < 2 ^ 32 \<Longrightarrow> unat (of_nat n :: u32) = n"
  by (simp only: unat_of_nat) simp



































text \<open>
  C4, as stated, fails: for the unsupported degree 2 and a destination that holds
  \<open>(1, 1)\<close> in its four entries, the destination is the same after the conversion; it
  is not zeroed.
\<close>

theorem unsupported_degree_leaves_dest:
  "fst (cuda_convert_lwe_bootstrap_key ieee_ops (\<lambda>N g b sm d_bsk dest. d_bsk) (\<lambda>N. 1)
         (Finite 0, Finite 0)
         [(Finite 1, Finite 1), (Finite 1, Finite 1), (Finite 1, Finite 1), (Finite 1, Finite 1)]
         [1, 2, 3, 4, 5, 6, 7, 8 :: 32 word] 7 0 1 1 1 2 one_gpu_rt)
     = [(Finite 1, Finite 1), (Finite 1, Finite 1), (Finite 1, Finite 1), (Finite 1, Finite 1)]
   \<and> [(Finite 1, Finite 1), (Finite 1, Finite 1), (Finite 1, Finite 1), (Finite 1, Finite 1)]
     \<noteq> [(Finite 0, Finite 0), (Finite 0, Finite 0), (Finite 0, Finite 0), (Finite 0, Finite 0)]"
  by (simp add: cuda_convert_lwe_bootstrap_key_def Let_def)

text \<open>
  C4, amended. For every polynomial degree outside \<open>{512, 1024, 2048, 4096, 8192}\<close> the
  conversion launches no FFT kernel and leaves the destination buffer as it was; the
  function has no result through which it could report an error.
\<close>

theorem unsupported_degree_noop:
  assumes "polynomial_size \<notin> {512, 1024, 2048, 4096, 8192}"
  shows "fst (cuda_convert_lwe_bootstrap_key ops fft choose_opt h_init dest src v_stream gpu_index
                input_lwe_dim glwe_dim l_gadget polynomial_size rt) = dest
       \<and> filter is_fft_launch (calls (snd (cuda_convert_lwe_bootstrap_key ops fft choose_opt h_init
                dest src v_stream gpu_index input_lwe_dim glwe_dim l_gadget polynomial_size rt)))
         = filter is_fft_launch (calls rt)"
  using assms
  by (simp add: cuda_convert_lwe_bootstrap_key_def Let_def api_def set_device_def)

text \<open>An instance: degree 2, where the runtime calls are the allocation, the upload and the release.\<close>

theorem unsupported_degree_noop_witness:
  "(2 :: u32) \<notin> {512, 1024, 2048, 4096, 8192}
   \<and> cuda_convert_lwe_bootstrap_key ieee_ops (\<lambda>N g b sm d_bsk dest. d_bsk) (\<lambda>N. 1)
         (Finite 0, Finite 0)
         [(Finite 1, Finite 1), (Finite 1, Finite 1), (Finite 1, Finite 1), (Finite 1, Finite 1)]
         [1, 2, 3, 4, 5, 6, 7, 8 :: 32 word] 7 0 1 1 1 2 one_gpu_rt
     = ([(Finite 1, Finite 1), (Finite 1, Finite 1), (Finite 1, Finite 1), (Finite 1, Finite 1)],
        one_gpu_rt\<lparr>calls := [cudaSetDevice 0, cudaMalloc 64, cudaMemcpy 64 cudaMemcpyHostToDevice,
           cudaFree]\<rparr>)"
  using unsupported_degree_noop [of 2 ieee_ops "\<lambda>N g b sm d_bsk dest. d_bsk" "\<lambda>N. 1"
      "(Finite 0, Finite 0)"
      "[(Finite 1, Finite 1), (Finite 1, Finite 1), (Finite 1, Finite 1), (Finite 1, Finite 1)]"
      "[1, 2, 3, 4, 5, 6, 7, 8 :: 32 word]" 7 0 1 1 1 one_gpu_rt]
  by (simp add: cuda_convert_lwe_bootstrap_key_def Let_def api_def set_device_def one_gpu_rt_def
      total_polynomials_def)

subsection \<open>Twiddle table builder\<close>

lemma bit_reverse_0 [simp]: "bit_reverse 0 i = 0"
  by (simp add: bit_reverse_def)

lemma bit_reverse_Suc:
  "bit_reverse (Suc k) i = (i mod 2) * 2 ^ k + bit_reverse k (i div 2)"
proof -
  have e: "[0..<Suc k] = 0 # map Suc [0..<k]"
    by (simp add: upt_conv_Cons map_Suc_upt del: upt_Suc)
  have "bit_reverse (Suc k) i =
      (if bit i 0 then 2 ^ k else 0) +
      (\<Sum>b \<leftarrow> [0..<k]. if bit i (Suc b) then 2 ^ (k - Suc b) else 0)"
    unfolding bit_reverse_def e by (simp add: comp_def cong: if_cong)
  also have "(\<Sum>b \<leftarrow> [0..<k]. if bit i (Suc b) then 2 ^ (k - Suc b) else (0::nat)) =
      bit_reverse k (i div 2)"
    by (simp add: bit_reverse_def bit_Suc)
  also have "(if bit i 0 then 2 ^ k else (0::nat)) = (i mod 2) * 2 ^ k"
    by (simp add: bit_0 odd_iff_mod_2_eq_one)
  finally show ?thesis by simp
qed

lemma bit_reverse_less: "bit_reverse k i < 2 ^ k"
proof (induction k arbitrary: i)
  case 0
  then show ?case by simp
next
  case (Suc k)
  show ?case
    using Suc.IH [of "i div 2"]
    by (cases "even i") (simp_all add: bit_reverse_Suc odd_iff_mod_2_eq_one)
qed

lemma bit_reverse_zero [simp]: "bit_reverse k 0 = 0"
  by (induction k) (simp_all add: bit_reverse_Suc)

lemma low_and_exp: "r < 2 ^ k \<Longrightarrow> r AND 2 ^ k = (0::nat)"
  by (simp add: and_exp_eq_0_iff_not_bit bit_iff_odd)

lemma low_xor_exp: "r < 2 ^ k \<Longrightarrow> r XOR 2 ^ k = r + (2 ^ k :: nat)"
  by (simp add: disjunctive_add_eq_xor low_and_exp)

lemma high_as_or: "r < 2 ^ k \<Longrightarrow> 2 ^ k + r = (2 ^ k :: nat) OR r"
  by (rule disjunctive_add_eq_or) (simp add: and.commute low_and_exp)

lemma high_and_exp: "r < 2 ^ k \<Longrightarrow> (2 ^ k + r) AND 2 ^ k = (2 ^ k :: nat)"
  by (simp only: high_as_or) (rule bit_eqI, auto simp: bit_simps)

lemma high_xor_exp: "r < 2 ^ k \<Longrightarrow> (2 ^ k + r) XOR 2 ^ k = (r :: nat)"
proof -
  assume a: "r < 2 ^ k"
  then have "\<not> bit r k"
    by (simp add: bit_iff_odd)
  then show ?thesis
    by (simp only: high_as_or [OF a]) (rule bit_eqI, auto simp: bit_simps)
qed

lemma drop_bit_1_exp_Suc: "drop_bit 1 (2 ^ Suc k :: nat) = 2 ^ k"
  by (simp add: drop_bit_eq_div)

text \<open>The inner loop followed by \<open>j ^= bit\<close> is the increment of a reversed counter.\<close>

lemma reversed_increment:
  assumes "i < 2 ^ k"
  shows "(case clear_ones (bit_reverse k i) (drop_bit 1 (2 ^ k)) of (j1, b1) \<Rightarrow> j1 XOR b1) =
     bit_reverse k (Suc i mod 2 ^ k)"
  using assms
proof (induction k arbitrary: i)
  case 0
  have "clear_ones 0 0 = (0, 0)"
    by (subst clear_ones.simps) simp
  then show ?case by (simp add: drop_bit_eq_div)
next
  case (Suc k)
  define r where "r = bit_reverse k (i div 2)"
  have r: "r < 2 ^ k"
    unfolding r_def by (rule bit_reverse_less)
  have half: "i div 2 < 2 ^ k"
    using Suc.prems by simp
  show ?case
  proof (cases "even i")
    case True
    have "Suc i \<noteq> 2 ^ Suc k"
    proof
      assume "Suc i = 2 ^ Suc k"
      then have "even (Suc i)" by simp
      with True show False by simp
    qed
    then have "Suc i < 2 ^ Suc k"
      using Suc.prems by linarith
    then have m: "Suc i mod 2 ^ Suc k = Suc i"
      by simp
    have j: "bit_reverse (Suc k) i = r"
      using True by (simp add: bit_reverse_Suc r_def)
    have "clear_ones r (2 ^ k) = (r, 2 ^ k)"
      using low_and_exp [OF r] by (subst clear_ones.simps) simp
    moreover have "Suc i mod 2 = 1" "Suc i div 2 = i div 2"
      using True by presburger+
    then have "bit_reverse (Suc k) (Suc i) = r + 2 ^ k"
      by (simp add: bit_reverse_Suc r_def)
    ultimately show ?thesis
      by (simp only: j m drop_bit_1_exp_Suc) (simp add: low_xor_exp [OF r])
  next
    case False
    have j: "bit_reverse (Suc k) i = 2 ^ k + r"
      using False by (simp add: bit_reverse_Suc r_def odd_iff_mod_2_eq_one)
    have step: "clear_ones (2 ^ k + r) (2 ^ k) = clear_ones r (drop_bit 1 (2 ^ k))"
      using high_and_exp [OF r] high_xor_exp [OF r] by (subst clear_ones.simps) simp
    have ev: "even (Suc i mod 2 ^ Suc k)"
      using False by (simp add: dvd_mod_iff)
    have "Suc i mod (2 * 2 ^ k) = 2 * (Suc i div 2 mod 2 ^ k) + Suc i mod 2"
      by (rule mod_mult2_eq)
    moreover have "Suc i mod 2 = 0" "Suc i div 2 = Suc (i div 2)"
      using False by presburger+
    ultimately have "Suc i mod 2 ^ Suc k div 2 = Suc (i div 2) mod 2 ^ k"
      by simp
    then have tgt: "bit_reverse (Suc k) (Suc i mod 2 ^ Suc k) = bit_reverse k (Suc (i div 2) mod 2 ^ k)"
      using ev by (simp add: bit_reverse_Suc)
    have "(case clear_ones (2 ^ k + r) (2 ^ k) of (j1, b1) \<Rightarrow> j1 XOR b1) =
        bit_reverse k (Suc (i div 2) mod 2 ^ k)"
      unfolding step unfolding r_def by (rule Suc.IH [OF half])
    then show ?thesis
      by (simp only: j drop_bit_1_exp_Suc tgt)
  qed
qed

lemma twiddle_step_eq:
  assumes "t < 2 ^ k" "Suc t < 2 ^ k"
  shows "twiddle_step (2 ^ k) (bit_reverse k t, cnt, s1, s2) (Suc t) =
     (if Suc t < bit_reverse k (Suc t)
      then (bit_reverse k (Suc t), cnt + 1, s1[cnt := of_nat (Suc t)],
            s2[cnt := of_nat (bit_reverse k (Suc t))])
      else (bit_reverse k (Suc t), cnt, s1, s2))"
proof -
  obtain j1 b1 where c: "clear_ones (bit_reverse k t) (drop_bit (Suc 0) (2 ^ k)) = (j1, b1)"
    by (cases "clear_ones (bit_reverse k t) (drop_bit (Suc 0) (2 ^ k))")
  have "j1 XOR b1 = bit_reverse k (Suc t mod 2 ^ k)"
    using reversed_increment [OF assms(1)] by (simp add: c)
  then have j2: "j1 XOR b1 = bit_reverse k (Suc t)"
    using assms(2) by simp
  show ?thesis
    by (simp add: twiddle_step_def c j2 Let_def)
qed

lemma update_padded:
  assumes "length xs = c" "c < m"
  shows "(xs @ replicate (m - c) z)[c := v] = (xs @ [v]) @ replicate (m - Suc c) z"
proof -
  have "replicate (m - c) z = z # replicate (m - Suc c) z"
    using assms(2) by (simp add: Suc_diff_Suc flip: replicate_Suc)
  then show ?thesis
    using assms(1) by (simp add: list_update_append)
qed

lemma twiddle_loop:
  assumes "t < 2 ^ k"
  shows "foldl (twiddle_step (2 ^ k)) (0, 0, replicate (2 ^ k) 0, replicate (2 ^ k) 0) [1..<Suc t] =
     (let ixs = filter (\<lambda>i. i < bit_reverse k i) [1..<Suc t] in
      (bit_reverse k t, length ixs,
       map of_nat ixs @ replicate (2 ^ k - length ixs) 0,
       map (\<lambda>i. of_nat (bit_reverse k i)) ixs @ replicate (2 ^ k - length ixs) 0))"
  using assms
proof (induction t)
  case 0
  then show ?case by simp
next
  case (Suc t)
  define ixs where "ixs = filter (\<lambda>i. i < bit_reverse k i) [1..<Suc t]"
  have t: "t < 2 ^ k"
    using Suc.prems by simp
  have "length ixs \<le> length [1..<Suc t]"
    unfolding ixs_def by (rule length_filter_le)
  moreover have "length [1..<Suc t] = t"
    by (simp del: upt_Suc)
  ultimately have cnt: "length ixs < 2 ^ k"
    using t by linarith
  have IH: "foldl (twiddle_step (2 ^ k)) (0, 0, replicate (2 ^ k) 0, replicate (2 ^ k) 0) [1..<Suc t] =
      (bit_reverse k t, length ixs,
       map of_nat ixs @ replicate (2 ^ k - length ixs) 0,
       map (\<lambda>i. of_nat (bit_reverse k i)) ixs @ replicate (2 ^ k - length ixs) 0)"
    using Suc.IH [OF t] by (simp add: ixs_def Let_def)
  have split: "[1..<Suc (Suc t)] = [1..<Suc t] @ [Suc t]"
    by simp
  show ?case
    unfolding split foldl_append IH
    using cnt
    by (simp add: twiddle_step_eq [OF t Suc.prems] Let_def update_padded ixs_def del: upt_Suc)
qed

lemma sint_of_nat_16:
  assumes "n < 2 ^ 15"
  shows "sint (of_nat n :: 16 word) = int n"
proof -
  have u: "uint (of_nat n :: 16 word) = int n"
    using assms by (simp add: unsigned_of_nat take_bit_nat_eq_self)
  show ?thesis
    using assms by (simp only: sint_uint u) (simp add: signed_take_bit_int_eq_self)
qed

lemma unat_exp_32:
  assumes "n < 32"
  shows "unat (2 ^ n :: u32) = 2 ^ n"
proof -
  have "(2 ^ n :: u32) = of_nat (2 ^ n)"
    by simp
  moreover have "(2 :: nat) ^ n < 2 ^ 32"
    using assms by (simp only: power_strict_increasing_iff) 
  ultimately show ?thesis
    by (simp only: unat_of_nat_32)
qed

text \<open>
  C8. For every polynomial degree \<open>N = 2^(k+1)\<close> with \<open>k \<le> 15\<close> (the supported degrees
  512 to 8192 are \<open>k = 8\<close> to \<open>12\<close>), the builder produces two arrays of \<open>N/2 = 2^k\<close>
  entries: the first lists the indices \<open>i\<close> in \<open>1 .. N/2 - 1\<close> with \<open>i < rev i\<close> in
  increasing order, the second lists \<open>rev i\<close> for the same indices, where \<open>rev\<close> is the
  reversal of the \<open>k\<close> binary digits; the pairs are stored from position 0 on and all
  remaining entries of both arrays are zero.
\<close>

theorem twiddle_tables:
  assumes N: "polynomial_size = 2 ^ Suc k" and k: "k \<le> 15"
  shows "case cuda_initialize_twiddles polynomial_size of (sw1_h, sw2_h) \<Rightarrow>
           map sint sw1_h =
             map int (swap_indexes k) @ replicate (2 ^ k - length (swap_indexes k)) 0
         \<and> map sint sw2_h =
             map (\<lambda>i. int (bit_reverse k i)) (swap_indexes k) @
             replicate (2 ^ k - length (swap_indexes k)) 0
         \<and> length sw1_h = unat polynomial_size div 2
         \<and> length sw2_h = unat polynomial_size div 2"
proof -
  have "unat polynomial_size = 2 ^ Suc k"
    unfolding N using k by (intro unat_exp_32) simp
  then have half: "unat (polynomial_size div 2) = 2 ^ k" and half': "unat polynomial_size div 2 = 2 ^ k"
    by (simp_all add: unat_div)
  define t where "t = (2 :: nat) ^ k - 1"
  have t: "t < 2 ^ k" and St: "Suc t = 2 ^ k"
    by (simp_all add: t_def)
  have small: "i < 2 ^ 15" if "i < 2 ^ k" for i :: nat
  proof -
    have "(2 :: nat) ^ k \<le> 2 ^ 15"
      using k by (simp only: power_increasing_iff) 
    with that show ?thesis by linarith
  qed
  have s1: "sint (of_nat i :: 16 word) = int i" if "i \<in> set (swap_indexes k)" for i
    using that by (intro sint_of_nat_16 small) (simp add: swap_indexes_def)
  have s2: "sint (of_nat (bit_reverse k i) :: 16 word) = int (bit_reverse k i)" for i
    by (intro sint_of_nat_16 small bit_reverse_less)
  have m1: "map sint (map of_nat (swap_indexes k) :: 16 word list) = map int (swap_indexes k)"
    by (simp add: s1)
  have m2: "map sint (map (\<lambda>i. of_nat (bit_reverse k i)) (swap_indexes k) :: 16 word list) =
      map (\<lambda>i. int (bit_reverse k i)) (swap_indexes k)"
    by (simp add: s2)
  have len: "length (swap_indexes k) \<le> 2 ^ k"
  proof -
    have "length (swap_indexes k) \<le> length [1..<(2 :: nat) ^ k]"
      unfolding swap_indexes_def by (rule length_filter_le)
    then show ?thesis by simp
  qed
  have loop: "foldl (twiddle_step (2 ^ k)) (0, 0, replicate (2 ^ k) 0, replicate (2 ^ k) 0)
        [1..<2 ^ k] =
      (bit_reverse k t, length (swap_indexes k),
       map of_nat (swap_indexes k) @ replicate (2 ^ k - length (swap_indexes k)) 0,
       map (\<lambda>i. of_nat (bit_reverse k i)) (swap_indexes k) @
       replicate (2 ^ k - length (swap_indexes k)) 0)"
    using twiddle_loop [OF t] unfolding St swap_indexes_def Let_def .
  show ?thesis
    unfolding cuda_initialize_twiddles_def half half' Let_def loop
    using len by (simp add: s1 s2)
qed

lemma swap_indexes_3: "swap_indexes 3 = [1, 3]"
  by code_simp

text \<open>An instance: degree 16, with the swap pairs (1, 4) and (3, 6) of order 8.\<close>

theorem twiddle_tables_witness:
  "(16 :: u32) = 2 ^ Suc 3 \<and> (3 :: nat) \<le> 15
   \<and> map sint (fst (cuda_initialize_twiddles 16)) = [1, 3, 0, 0, 0, 0, 0, 0]
   \<and> map sint (snd (cuda_initialize_twiddles 16)) = [4, 6, 0, 0, 0, 0, 0, 0]"
  using twiddle_tables [of 16 3]
  by (simp add: swap_indexes_3 split: prod.splits) code_simp

subsection \<open>The blind-rotation loop\<close>


lemma steps_did [simp]: "steps (did c s) = steps s @ [c]"
  by (simp add: did_def)








text \<open>
  An instance in which the only mask element is 0, so that the rotation amount \<open>a_hat\<close>
  of the only iteration is 0: the iteration runs in full.
\<close>

lemma zero_rotation_runs_in_full:
  "rescale_torus_element toy_fns (a_lwe_in toy_args ! 0) (2 * a_degree toy_args) = 0
   \<and> steps (fst (device_bootstrap_amortized toy_fns FULLSM toy_args 0 (toy_scratch 0, [0, 0, 0]))) =
     [Divide_by_monomial, Divide_by_monomial,
      Multiply_by_monomial_and_sub, Multiply_by_monomial_and_sub,
      Round_to_closest_multiple, Round_to_closest_multiple, Zero_res_fft,
      Decompose_one_level, Decompose_one_level,
      Real_to_complex_compressed, Forward_NSMFFT, Correction_direct,
      Product_accumulate, Product_accumulate,
      Real_to_complex_compressed, Forward_NSMFFT, Correction_direct,
      Product_accumulate, Product_accumulate,
      Correction_inverse, Correction_inverse, Inverse_NSMFFT, Inverse_NSMFFT,
      Add_to_torus, Add_to_torus,
      Sample_extract_mask, Sample_extract_body]"
  by code_simp

subsection \<open>The three tiers\<close>

text \<open>
  Two facts behind the block-level model. The strided loops of the kernel body (zeroing
  and copy) write every position of a buffer of \<open>degree / 2\<close> values when \<open>opt\<close> is
  even and divides the degree. And in every tier the nine buffers lie within the memory
  that the launcher provides to a block and do not overlap, for a torus of 4 or 8 bytes
  and a polynomial size that is a multiple of 4.
\<close>

lemma strided_positions_cover:
  assumes "even opt" "opt dvd degree" "0 < opt"
  shows "strided_positions degree opt = {0..<degree div 2}"
proof -
  define B where "B = degree div opt"
  define H where "H = opt div 2"
  have opt: "opt = 2 * H"
    using assms(1) by (simp add: H_def)
  have deg: "degree = B * opt"
    using assms(2) by (simp add: B_def)
  have half: "degree div 2 = B * H"
    by (simp add: deg opt)
  have "strided_positions degree opt = {x. \<exists>tid < B. \<exists>j < H. x = tid + j * B}"
    by (auto simp: strided_positions_def B_def H_def)
  also have "\<dots> = {0..<B * H}"
  proof (intro set_eqI iffI)
    fix x
    assume "x \<in> {x. \<exists>tid < B. \<exists>j < H. x = tid + j * B}"
    then obtain tid j where t: "tid < B" and j: "j < H" and x: "x = tid + j * B"
      by blast
    have "tid + j * B < B + j * B"
      using t by simp
    also have "\<dots> = (j + 1) * B"
      by simp
    also have "\<dots> \<le> H * B"
      using j by (intro mult_le_mono1) simp
    finally show "x \<in> {0..<B * H}"
      by (simp add: x mult.commute)
  next
    fix x
    assume "x \<in> {0..<B * H}"
    then have lt: "x < B * H" by simp
    then have B0: "0 < B"
      by (cases "B = 0") simp_all
    have "x mod B < B"
      using B0 by simp
    moreover have "x div B < H"
      using lt B0 by (simp add: less_mult_imp_div_less mult.commute)
    moreover have "x = x mod B + (x div B) * B"
      by simp
    ultimately show "x \<in> {x. \<exists>tid < B. \<exists>j < H. x = tid + j * B}"
      by blast
  qed
  finally show ?thesis
    by (simp add: half)
qed

lemma scratch_layout_fits:
  assumes sT: "sT = 4 \<or> sT = 8" and N: "4 dvd N"
  shows "list_all (region_within (launch_memory smd sT N)) (scratch_pointers smd sT N)
       \<and> all_apart (scratch_pointers smd sT N)"
proof -
  obtain q where q: "N = 4 * q"
    using N by (auto simp: dvd_def)
  have d: "N div 2 = 2 * q" "N div 4 = q"
    by (simp_all add: q)
  from sT show ?thesis
  proof
    assume "sT = 4"
    then show ?thesis
      by (cases smd)
        (simp_all add: scratch_pointers_def Let_def region_within_def regions_apart_def
          spec_SM_FULL_def spec_SM_PART_def d, simp_all add: q)
  next
    assume "sT = 8"
    then show ?thesis
      by (cases smd)
        (simp_all add: scratch_pointers_def Let_def region_within_def regions_apart_def
          spec_SM_FULL_def spec_SM_PART_def d, simp_all add: q)
  qed
qed









lemma overwrites_toy: "overwrites toy_fns"
  by (simp add: overwrites_def toy_fns_def)


end
